theory Spec2Isabelle
  imports Complex_Main "HOL-Library.Sublist"
begin

section \<open>The route planner of HikeUp (apps/web/src/app/plan/page.tsx)\<close>

text \<open>
  The planning screen parses a free-text prompt (\<open>parsePrompt\<close>), synthesises a route
  from the parsed distance and mode (\<open>buildRouteFromPrompt\<close>, \<open>generateShape\<close>,
  \<open>estimateTime\<close>, \<open>suggestDistance\<close>), stores it in a per-mode list
  (\<open>handleCoachPlan\<close>) and converts a route to map coordinates (\<open>buildRouteGeo\<close>).

  Numbers. A JavaScript \<open>number\<close> is modelled as a real number: arithmetic is exact, there
  is no rounding to a double, no NaN and no infinity. Decimal literals of the source
  (\<open>11.5\<close>, \<open>1.609\<close>, \<open>0.00075\<close>) denote their decimal values.

  Strings. A JavaScript string is modelled as a \<open>string\<close> whose characters are the code
  units \<open>0\<close> to \<open>255\<close> (ISO 8859-1); the accented letters of the source are written by
  their code (\<open>CHR 0xE1\<close> is a-acute, \<open>CHR 0xF3\<close> is o-acute), and as \<open>\xE1\<close>, \<open>\xF3\<close> in
  the quoted source.
\<close>

type_synonym number = real

subsection \<open>Types of the source\<close>

text \<open>\<^verbatim>\<open>type Mode = "run" | "jog" | "walk" | "hike"\<close>\<close>

datatype Mode = Run | Jog | Walk | Hike

text \<open>The string a mode has inside a template literal.\<close>

fun mode_string :: "Mode \<Rightarrow> string" where
  "mode_string Run = ''run''"
| "mode_string Jog = ''jog''"
| "mode_string Walk = ''walk''"
| "mode_string Hike = ''hike''"

text \<open>\<^verbatim>\<open>"easy" | "tempo" | "intervals" | "trail"\<close>, the type of \<open>intent\<close> in \<open>parsePrompt\<close>.\<close>

datatype TrainingIntent = Easy | Tempo | Intervals | Trail

text \<open>
  A waypoint \<^verbatim>\<open>{ x: number; y: number; label?: string }\<close>. The fields are named
  \<open>pt_x\<close>, \<open>pt_y\<close>, \<open>pt_label\<close>; an absent label is \<open>None\<close>.
\<close>

record Point =
  pt_x :: number
  pt_y :: number
  pt_label :: "string option"

text \<open>
  \<^verbatim>\<open>type RouteOption\<close>. The field \<open>id\<close> is named \<open>id'\<close> and \<open>distanceKm\<close> is named
  \<open>distanceKm'\<close> (\<open>distanceKm\<close> is the field of the parser's result below).
  \<open>estMinutes\<close> always holds an integer.
\<close>

record RouteOption =
  id' :: string
  title :: string
  distanceKm' :: number
  safety :: string
  elevation :: string
  estMinutes :: int
  surface :: string
  points :: "Point list"

subsection \<open>Built-in functions of the language\<close>

text \<open>
  \<open>Math.round\<close>: the nearest integer, a tie going to the larger one
  (\<open>Math.round(2.5) = 3\<close>, \<open>Math.round(-2.5) = -2\<close>).
\<close>

definition Math_round :: "number \<Rightarrow> int" where
  "Math_round v = \<lfloor>v + 1 / 2\<rfloor>"

text \<open>\<open>Array.prototype.splice(i, 0, v)\<close>: insert \<open>v\<close> before index \<open>i\<close>.\<close>

definition splice_insert :: "nat \<Rightarrow> 'a \<Rightarrow> 'a list \<Rightarrow> 'a list" where
  "splice_insert i v xs = take i xs @ v # drop i xs"

subsection \<open>estimateTime, suggestDistance, generateShape\<close>

text \<open>
  \<^verbatim>\<open>
  function estimateTime(distanceKm: number, mode: Mode): number {
    const pace =
      mode === "walk" ? 11.5 : mode === "jog" ? 6.5 : mode === "hike" ? 10.5 : 5.2;
    return Math.round((distanceKm * pace) / 1.0);
  }
  \<close>
\<close>

definition estimateTime :: "number \<Rightarrow> Mode \<Rightarrow> int" where
  "estimateTime distanceKm mode =
     (let pace = (if mode = Walk then 11.5 else if mode = Jog then 6.5
                  else if mode = Hike then 10.5 else 5.2)
      in Math_round ((distanceKm * pace) / 1.0))"

text \<open>
  The pace table as the specification words it: walk 11.5, run 5.2, jog 6.5 and
  hike 10.5 minutes per kilometre.
\<close>

fun spec_pace :: "Mode \<Rightarrow> number" where
  "spec_pace Walk = 11.5"
| "spec_pace Run = 5.2"
| "spec_pace Jog = 6.5"
| "spec_pace Hike = 10.5"

text \<open>
  \<^verbatim>\<open>
  function suggestDistance(mode: Mode): number {
    if (mode === "walk") return 4.5;
    if (mode === "jog") return 6.5;
    if (mode === "hike") return 10.5;
    return 8.0;
  }
  \<close>
\<close>

definition suggestDistance :: "Mode \<Rightarrow> number" where
  "suggestDistance mode =
     (if mode = Walk then 4.5
      else if mode = Jog then 6.5
      else if mode = Hike then 10.5
      else 8.0)"

text \<open>
  \<open>generateShape\<close> mutates the array \<open>base\<close> in place; the model passes the list
  through the two conditionals.
  \<^verbatim>\<open>
  if (distanceKm > 9) {
    base.splice(2, 0, { x: 48, y: 56, label: "Punto" });
    base[base.length - 1] = { x: 86, y: 18, label: "Fin" };
  }
  if (distanceKm > 12) {
    base.splice(1, 0, { x: 26, y: 74, label: "Extra" });
  }
  return base;
  \<close>
\<close>

definition shape_base :: "Point list" where
  "shape_base =
     [\<lparr>pt_x = 12, pt_y = 86, pt_label = Some ''Inicio''\<rparr>,
      \<lparr>pt_x = 36, pt_y = 64, pt_label = None\<rparr>,
      \<lparr>pt_x = 58, pt_y = 50, pt_label = None\<rparr>,
      \<lparr>pt_x = 82, pt_y = 26, pt_label = Some ''Fin''\<rparr>]"

definition generateShape :: "number \<Rightarrow> Point list" where
  "generateShape distanceKm =
     (let base = shape_base;
          base = (if distanceKm > 9
                  then (let b = splice_insert 2 \<lparr>pt_x = 48, pt_y = 56, pt_label = Some ''Punto''\<rparr> base
                        in b[length b - 1 := \<lparr>pt_x = 86, pt_y = 18, pt_label = Some ''Fin''\<rparr>])
                  else base);
          base = (if distanceKm > 12
                  then splice_insert 1 \<lparr>pt_x = 26, pt_y = 74, pt_label = Some ''Extra''\<rparr> base
                  else base)
      in base)"

subsection \<open>Strings\<close>

text \<open>
  \<open>\d\<close> is an ASCII digit. \<open>\s\<close> and \<open>trim\<close> use the white space and line terminators
  of the language; below 256 these are tab, line feed, vertical tab, form feed, carriage
  return, space and the no-break space.
\<close>

definition isDigit :: "char \<Rightarrow> bool" where
  "isDigit c = (48 \<le> (of_char c :: nat) \<and> (of_char c :: nat) \<le> 57)"

definition isSpace :: "char \<Rightarrow> bool" where
  "isSpace c = ((of_char c :: nat) \<in> {9, 10, 11, 12, 13, 32, 160})"

text \<open>
  \<open>toLowerCase\<close>: the capital letters A to Z and the accented capitals \<open>0xC0\<close> to \<open>0xDE\<close>
  (without the multiplication sign \<open>0xD7\<close>) move up by 32; every other character stays.
\<close>

definition lower_char :: "char \<Rightarrow> char" where
  "lower_char c =
     (let n = (of_char c :: nat)
      in if (65 \<le> n \<and> n \<le> 90) \<or> (192 \<le> n \<and> n \<le> 214) \<or> (216 \<le> n \<and> n \<le> 222)
         then char_of (n + 32) else c)"

definition toLowerCase :: "string \<Rightarrow> string" where
  "toLowerCase s = map lower_char s"

text \<open>\<open>s.includes(k)\<close>: \<open>k\<close> occurs in \<open>s\<close> as a contiguous substring.\<close>

fun includes' :: "string \<Rightarrow> string \<Rightarrow> bool" where
  "includes' [] k = (k = [])"
| "includes' (c # cs) k = (prefix k (c # cs) \<or> includes' cs k)"

text \<open>\<open>s.trim()\<close>: white space removed at both ends.\<close>

definition trim :: "string \<Rightarrow> string" where
  "trim s = rev (dropWhile isSpace (rev (dropWhile isSpace s)))"

text \<open>\<open>s.replace(a, b)\<close> with a string pattern of one character: the first \<open>a\<close> becomes \<open>b\<close>.\<close>

fun replace_first :: "char \<Rightarrow> char \<Rightarrow> string \<Rightarrow> string" where
  "replace_first a b [] = []"
| "replace_first a b (c # cs) = (if c = a then b # cs else c # replace_first a b cs)"

text \<open>The value of a string of digits, and of one digit.\<close>

definition digit_value :: "char \<Rightarrow> nat" where
  "digit_value c = of_char c - 48"

definition digits_value :: "string \<Rightarrow> nat" where
  "digits_value ds = foldl (\<lambda>a c. 10 * a + digit_value c) 0 ds"

text \<open>
  \<open>parseFloat\<close> on a string that starts with a digit: the longest prefix of the form
  digits, or digits \<open>.\<close> digits, is read as a decimal number (the characters after it
  are ignored). \<open>parsePrompt\<close> calls it on such strings only (lemma
  \<open>match_first_number_text\<close> below); signs, exponents and the NaN result for a string
  with no leading number are outside the model.
\<close>

definition parseFloat :: "string \<Rightarrow> number" where
  "parseFloat s =
     (let ip = takeWhile isDigit s;
          r = dropWhile isDigit s;
          fp = (case r of [] \<Rightarrow> [] | c # t \<Rightarrow> if c = CHR ''.'' then takeWhile isDigit t else [])
      in real (digits_value ip) + real (digits_value fp) / 10 ^ length fp)"

text \<open>
  The decimal numeral of an integer, as a template literal prints an integral number
  (below \<open>10^21\<close> in absolute value, where the language switches to exponent notation).
\<close>

fun nat_string :: "nat \<Rightarrow> string" where
  "nat_string n =
     (if n < 10 then [char_of (48 + n)]
      else nat_string (n div 10) @ [char_of (48 + n mod 10)])"

declare nat_string.simps [simp del]

definition int_string :: "int \<Rightarrow> string" where
  "int_string i = (if i < 0 then CHR ''-'' # nat_string (nat (- i)) else nat_string (nat i))"

subsection \<open>Regular expressions\<close>

text \<open>
  The two patterns of \<open>parsePrompt\<close> are run by the language's backtracking matcher.
  \<open>matches r s\<close> lists, in the order the matcher tries them, the rests of \<open>s\<close> that
  remain after \<open>r\<close> has matched a prefix of \<open>s\<close>: greedy quantifiers list the longest
  match first, an alternative lists its left branch first, and a repetition does not
  iterate on an empty match.
\<close>

datatype regex =
    Eps
  | Class "char \<Rightarrow> bool"
  | Seq regex regex
  | Alt regex regex
  | Opt regex
  | Star regex

function matches :: "regex \<Rightarrow> string \<Rightarrow> string list" where
  "matches Eps s = [s]"
| "matches (Class p) s = (case s of [] \<Rightarrow> [] | c # cs \<Rightarrow> if p c then [cs] else [])"
| "matches (Seq r1 r2) s = concat (map (matches r2) (matches r1 s))"
| "matches (Alt r1 r2) s = matches r1 s @ matches r2 s"
| "matches (Opt r) s = matches r s @ [s]"
| "matches (Star r) s =
     concat (map (matches (Star r)) (filter (\<lambda>t. length t < length s) (matches r s))) @ [s]"
  by pat_completeness auto
termination
  by (relation "measures [size \<circ> fst, length \<circ> snd]") auto

declare matches.simps [simp del]

text \<open>\<open>r+\<close> and a literal string.\<close>

definition Plus :: "regex \<Rightarrow> regex" where
  "Plus r = Seq r (Star r)"

fun Lit :: "string \<Rightarrow> regex" where
  "Lit [] = Eps"
| "Lit (c # cs) = Seq (Class (\<lambda>d. d = c)) (Lit cs)"

text \<open>
  Both patterns have the form \<open>(group 1)(?:rest)\<close>, and the code reads only group 1.
  \<open>exec_at grp rest s\<close> matches the pattern at the start of \<open>s\<close>: the first way of
  matching the group after which the rest matches too is the one the matcher finds,
  and the text of group 1 is what the group consumed.
\<close>

definition exec_at :: "regex \<Rightarrow> regex \<Rightarrow> string \<Rightarrow> string option" where
  "exec_at grp rest s =
     (case filter (\<lambda>t. matches rest t \<noteq> []) (matches grp s) of
        [] \<Rightarrow> None
      | t # _ \<Rightarrow> Some (take (length s - length t) s))"

text \<open>
  \<open>s.match(re)\<close> for a pattern without the \<open>g\<close> flag: the match at the leftmost start
  position, or \<open>null\<close> (\<open>None\<close>). The result is group 1 of the match.
\<close>

fun match_first :: "regex \<Rightarrow> regex \<Rightarrow> string \<Rightarrow> string option" where
  "match_first grp rest [] = exec_at grp rest []"
| "match_first grp rest (c # cs) =
     (case exec_at grp rest (c # cs) of
        Some g \<Rightarrow> Some g
      | None \<Rightarrow> match_first grp rest cs)"

text \<open>
  \<^verbatim>\<open>/(\d+(?:[.,]\d+)?)(?:\s*(km|k|kil[o\xF3]metros))/\<close> and
  \<^verbatim>\<open>/(\d+(?:[.,]\d+)?)(?:\s*(mi|millas))/\<close>: the common group 1 and the two rests.
\<close>

definition number_group :: regex where
  "number_group =
     Seq (Plus (Class isDigit))
         (Opt (Seq (Class (\<lambda>c. c = CHR ''.'' \<or> c = CHR '','')) (Plus (Class isDigit))))"

definition km_rest :: regex where
  "km_rest =
     Seq (Star (Class isSpace))
         (Alt (Lit ''km'')
           (Alt (Lit ''k'')
             (Seq (Lit ''kil'')
               (Seq (Class (\<lambda>c. c = CHR ''o'' \<or> c = CHR 0xF3)) (Lit ''metros'')))))"

definition mi_rest :: regex where
  "mi_rest = Seq (Star (Class isSpace)) (Alt (Lit ''mi'') (Lit ''millas''))"

subsection \<open>parsePrompt\<close>

text \<open>
  The result \<^verbatim>\<open>{ mode, distanceKm, focus, intent }\<close> of \<open>parsePrompt\<close>; an undefined
  \<open>distanceKm\<close> is \<open>None\<close>.
\<close>

record Intent =
  mode :: Mode
  distanceKm :: "number option"
  focus :: string
  intent :: TrainingIntent

text \<open>
  \<^verbatim>\<open>
  const lower = prompt.toLowerCase();
  const kmMatch = lower.match(/(\d+(?:[.,]\d+)?)(?:\s*(km|k|kil[o\xF3]metros))/);
  const miMatch = lower.match(/(\d+(?:[.,]\d+)?)(?:\s*(mi|millas))/);
  const distanceKm = kmMatch
    ? parseFloat(kmMatch[1].replace(",", "."))
    : miMatch
      ? parseFloat(miMatch[1].replace(",", ".")) * 1.609
      : undefined;
  \<close>
\<close>

definition parse_distance :: "string \<Rightarrow> number option" where
  "parse_distance lower =
     (let kmMatch = match_first number_group km_rest lower;
          miMatch = match_first number_group mi_rest lower
      in case kmMatch of
           Some g \<Rightarrow> Some (parseFloat (replace_first CHR '','' CHR ''.'' g))
         | None \<Rightarrow>
             (case miMatch of
                Some g \<Rightarrow> Some (parseFloat (replace_first CHR '','' CHR ''.'' g) * 1.609)
              | None \<Rightarrow> None))"

text \<open>
  \<^verbatim>\<open>
  let mode: Mode = currentMode;
  if (lower.includes("caminar")) mode = "walk";
  if (lower.includes("trot")) mode = "jog";
  if (lower.includes("trail") || lower.includes("sendero")) mode = "hike";
  if (lower.includes("correr") || lower.includes("r\xE1pido") || lower.includes("interval")) mode = "run";
  \<close>
\<close>

definition parse_mode :: "string \<Rightarrow> Mode \<Rightarrow> Mode" where
  "parse_mode lower currentMode =
     (let m = currentMode;
          m = (if includes' lower ''caminar'' then Walk else m);
          m = (if includes' lower ''trot'' then Jog else m);
          m = (if includes' lower ''trail'' \<or> includes' lower ''sendero'' then Hike else m);
          m = (if includes' lower ''correr'' \<or> includes' lower (''r'' @ [CHR 0xE1] @ ''pido'')
                  \<or> includes' lower ''interval'' then Run else m)
      in m)"

definition parse_intent :: "string \<Rightarrow> TrainingIntent" where
  "parse_intent lower =
     (if includes' lower ''interval'' \<or> includes' lower ''series'' then Intervals
      else if includes' lower ''tempo'' \<or> includes' lower ''ritmo'' then Tempo
      else if includes' lower ''trail'' \<or> includes' lower ''desnivel'' then Trail
      else Easy)"

definition parse_focus :: "string \<Rightarrow> TrainingIntent \<Rightarrow> string" where
  "parse_focus lower i =
     (if includes' lower ''parque'' then ''Parques''
      else if includes' lower ''ilumin'' then ''Iluminaci'' @ [CHR 0xF3] @ ''n alta''
      else if includes' lower (''tr'' @ [CHR 0xE1] @ ''fico'') then ''Tr'' @ [CHR 0xE1] @ ''fico bajo''
      else if i = Trail then ''Terreno mixto''
      else ''Ruta equilibrada'')"

definition parsePrompt :: "string \<Rightarrow> Mode \<Rightarrow> Intent" where
  "parsePrompt prompt currentMode =
     (let lower = toLowerCase prompt;
          i = parse_intent lower
      in \<lparr>mode = parse_mode lower currentMode,
          distanceKm = parse_distance lower,
          focus = parse_focus lower i,
          intent = i\<rparr>)"

subsection \<open>buildRouteFromPrompt\<close>

text \<open>
  \<^verbatim>\<open>
  function buildRouteFromPrompt(distanceKm: number, mode: Mode, focus: string): RouteOption {
    const estMinutes = estimateTime(distanceKm, mode);
    return {
      id: `coach-${mode}-${Math.round(distanceKm * 10)}`,
      title: `Coach: ${focus}`,
      distanceKm,
      safety: focus,
      elevation: mode === "hike" ? "+200 m" : mode === "run" ? "+80 m" : "+40 m",
      estMinutes,
      surface: mode === "hike" ? "Trail" : focus,
      points: generateShape(distanceKm),
    };
  }
  \<close>
  The parameters are named \<open>dkm\<close>, \<open>md\<close> and \<open>foc\<close> here.
\<close>

definition buildRouteFromPrompt :: "number \<Rightarrow> Mode \<Rightarrow> string \<Rightarrow> RouteOption" where
  "buildRouteFromPrompt dkm md foc =
     (let est = estimateTime dkm md
      in \<lparr>id' = ''coach-'' @ mode_string md @ ''-'' @ int_string (Math_round (dkm * 10)),
          title = ''Coach: '' @ foc,
          distanceKm' = dkm,
          safety = foc,
          elevation = (if md = Hike then ''+200 m'' else if md = Run then ''+80 m'' else ''+40 m''),
          estMinutes = est,
          surface = (if md = Hike then ''Trail'' else foc),
          points = generateShape dkm\<rparr>)"

subsection \<open>The catalogue and the state of the page\<close>

text \<open>
  \<^verbatim>\<open>const baseRoutes: Record<Mode, RouteOption[]>\<close>, the built-in routes
  (\<open>CHR 0xB7\<close> is the middle dot, \<open>CHR 0xE9\<close> is e-acute).
\<close>

fun baseRoutes :: "Mode \<Rightarrow> RouteOption list" where
  "baseRoutes Run =
     [\<lparr>id' = ''run-quick'', title = ''Ritmo estable'', distanceKm' = 8.4,
       safety = ''Zonas iluminadas '' @ [CHR 0xB7] @ '' Bajo tr'' @ [CHR 0xE1] @ ''fico'',
       elevation = ''+64 m'', estMinutes = 44, surface = ''Asfalto + parque'',
       points = [\<lparr>pt_x = 12, pt_y = 84, pt_label = Some ''Inicio''\<rparr>,
                 \<lparr>pt_x = 36, pt_y = 60, pt_label = Some ''x km''\<rparr>,
                 \<lparr>pt_x = 66, pt_y = 44, pt_label = None\<rparr>,
                 \<lparr>pt_x = 88, pt_y = 18, pt_label = Some ''Fin''\<rparr>]\<rparr>,
      \<lparr>id' = ''run-scenic'', title = ''Esc'' @ [CHR 0xE9] @ ''nica'', distanceKm' = 9.2,
       safety = ''Parques y ciclorruta'',
       elevation = ''+92 m'', estMinutes = 49, surface = ''Verde + mixto'',
       points = [\<lparr>pt_x = 10, pt_y = 86, pt_label = Some ''Inicio''\<rparr>,
                 \<lparr>pt_x = 32, pt_y = 64, pt_label = None\<rparr>,
                 \<lparr>pt_x = 56, pt_y = 54, pt_label = Some ''Mirador''\<rparr>,
                 \<lparr>pt_x = 80, pt_y = 24, pt_label = Some ''Fin''\<rparr>]\<rparr>]"
| "baseRoutes Jog =
     [\<lparr>id' = ''jog-soft'', title = ''Suave y seguro'', distanceKm' = 6.0,
       safety = ''Parques y aceras amplias'',
       elevation = ''+40 m'', estMinutes = 40, surface = ''Parque'',
       points = [\<lparr>pt_x = 14, pt_y = 84, pt_label = Some ''Inicio''\<rparr>,
                 \<lparr>pt_x = 40, pt_y = 62, pt_label = None\<rparr>,
                 \<lparr>pt_x = 64, pt_y = 56, pt_label = Some ''Pausa agua''\<rparr>,
                 \<lparr>pt_x = 86, pt_y = 30, pt_label = Some ''Fin''\<rparr>]\<rparr>]"
| "baseRoutes Walk =
     [\<lparr>id' = ''walk-daily'', title = ''Caminata diaria'', distanceKm' = 4.0,
       safety = ''Alta iluminaci'' @ [CHR 0xF3] @ ''n'',
       elevation = ''+18 m'', estMinutes = 48, surface = ''Ciudad'',
       points = [\<lparr>pt_x = 16, pt_y = 84, pt_label = Some ''Inicio''\<rparr>,
                 \<lparr>pt_x = 38, pt_y = 70, pt_label = None\<rparr>,
                 \<lparr>pt_x = 60, pt_y = 60, pt_label = None\<rparr>,
                 \<lparr>pt_x = 82, pt_y = 34, pt_label = Some ''Fin''\<rparr>]\<rparr>]"
| "baseRoutes Hike =
     [\<lparr>id' = ''hike-green'', title = ''Sendero verde'', distanceKm' = 11.3,
       safety = ''Terreno mixto'',
       elevation = ''+240 m'', estMinutes = 92, surface = ''Trail'',
       points = [\<lparr>pt_x = 18, pt_y = 86, pt_label = Some ''Inicio''\<rparr>,
                 \<lparr>pt_x = 42, pt_y = 70, pt_label = Some ''Bosque''\<rparr>,
                 \<lparr>pt_x = 64, pt_y = 54, pt_label = None\<rparr>,
                 \<lparr>pt_x = 78, pt_y = 36, pt_label = Some ''Cima''\<rparr>,
                 \<lparr>pt_x = 90, pt_y = 20, pt_label = Some ''Fin''\<rparr>]\<rparr>]"

text \<open>
  The state of \<open>PlanPage\<close> that the route functions read and write: the current mode
  (the state variable \<open>mode\<close>, here \<open>cur_mode\<close>), the coach routes per mode, the id of
  the active route and the text of the prompt box. The routine, the step index, the
  coach note and the panel flags are written by the same handlers and read by none of
  the functions modelled here.
\<close>

record PlanState =
  cur_mode :: Mode
  customRoutes :: "Mode \<Rightarrow> RouteOption list"
  activeRouteId :: string
  coachPrompt :: string

text \<open>The initial values of the \<open>useState\<close> calls.\<close>

definition initial_state :: PlanState where
  "initial_state =
     \<lparr>cur_mode = Run,
      customRoutes = (\<lambda>_. []),
      activeRouteId = id' (baseRoutes Run ! 0),
      coachPrompt = []\<rparr>"

text \<open>
  \<^verbatim>\<open>
  const handleCoachPlan = () => {
    const prompt = coachPrompt.trim();
    if (!prompt) return;
    const parsed = parsePrompt(prompt, mode);
    setMode(parsed.mode);
    const distanceKm = parsed.distanceKm ?? suggestDistance(parsed.mode);
    const newRoute = buildRouteFromPrompt(distanceKm, parsed.mode, parsed.focus);
    setCustomRoutes((prev) => {
      const list = prev[parsed.mode] ?? [];
      return { ...prev, [parsed.mode]: [...list.filter((r) => r.id !== newRoute.id), newRoute] };
    });
    setActiveRouteId(newRoute.id);
    ...
  };
  \<close>
  \<open>coach_distance\<close> and \<open>coach_route\<close> are the constants \<open>distanceKm\<close> and \<open>newRoute\<close> of the
  handler, \<open>insert_route\<close> is the function given to \<open>setCustomRoutes\<close>.
\<close>

definition coach_distance :: "Intent \<Rightarrow> number" where
  "coach_distance parsed =
     (case distanceKm parsed of Some d \<Rightarrow> d | None \<Rightarrow> suggestDistance (mode parsed))"

definition coach_route :: "Intent \<Rightarrow> RouteOption" where
  "coach_route parsed = buildRouteFromPrompt (coach_distance parsed) (mode parsed) (focus parsed)"

definition insert_route ::
  "Mode \<Rightarrow> RouteOption \<Rightarrow> (Mode \<Rightarrow> RouteOption list) \<Rightarrow> (Mode \<Rightarrow> RouteOption list)" where
  "insert_route md newRoute prev =
     (let list = prev md
      in prev(md := filter (\<lambda>r. id' r \<noteq> id' newRoute) list @ [newRoute]))"

definition handleCoachPlan :: "PlanState \<Rightarrow> PlanState" where
  "handleCoachPlan s =
     (let prompt = trim (coachPrompt s)
      in if prompt = [] then s
         else
           (let parsed = parsePrompt prompt (cur_mode s);
                newRoute = coach_route parsed
            in s\<lparr>cur_mode := mode parsed,
                 customRoutes := insert_route (mode parsed) newRoute (customRoutes s),
                 activeRouteId := id' newRoute\<rparr>))"

text \<open>
  The other handlers that write this state: typing into the prompt box, the mode
  switch of the bottom sheet
  \<^verbatim>\<open>
  setMode={(m) => {
    setMode(m);
    const first = [...baseRoutes[m], ...(customRoutes[m] ?? [])][0]?.id;
    if (first) setActiveRouteId(first);
  }}
  \<close>
  and the choice of a route in the list.
\<close>

definition selectMode :: "Mode \<Rightarrow> PlanState \<Rightarrow> PlanState" where
  "selectMode m s =
     (let s1 = s\<lparr>cur_mode := m\<rparr>
      in case baseRoutes m @ customRoutes s m of
           [] \<Rightarrow> s1
         | r # _ \<Rightarrow> if id' r \<noteq> [] then s1\<lparr>activeRouteId := id' r\<rparr> else s1)"

datatype event = TypePrompt string | CoachPlan | SelectMode Mode | SelectRoute string

fun step :: "PlanState \<Rightarrow> event \<Rightarrow> PlanState" where
  "step s (TypePrompt t) = s\<lparr>coachPrompt := t\<rparr>"
| "step s CoachPlan = handleCoachPlan s"
| "step s (SelectMode m) = selectMode m s"
| "step s (SelectRoute i) = s\<lparr>activeRouteId := i\<rparr>"

text \<open>The states the page can be in: the initial state after any sequence of events.\<close>

definition run_events :: "event list \<Rightarrow> PlanState" where
  "run_events es = foldl step initial_state es"

text \<open>
  \<^verbatim>\<open>
  const routes = [...baseRoutes[mode], ...(customRoutes[mode] ?? [])]
  const activeRoute = routes.find((r) => r.id === activeRouteId) ?? routes[0]
  \<close>
  \<open>routes[0]\<close> of an empty array is \<open>undefined\<close> (\<open>None\<close>).
\<close>

definition routes :: "PlanState \<Rightarrow> RouteOption list" where
  "routes s = baseRoutes (cur_mode s) @ customRoutes s (cur_mode s)"

definition activeRoute :: "PlanState \<Rightarrow> RouteOption option" where
  "activeRoute s =
     (case find (\<lambda>r. id' r = activeRouteId s) (routes s) of
        Some r \<Rightarrow> Some r
      | None \<Rightarrow> (case routes s of [] \<Rightarrow> None | r # _ \<Rightarrow> Some r))"

subsection \<open>buildRouteGeo\<close>

text \<open>\<^verbatim>\<open>const MAP_CENTER: [number, number] = [-74.042, 4.6946]\<close> (longitude, latitude).\<close>

definition MAP_CENTER :: "number \<times> number" where
  "MAP_CENTER = (-74.042, 4.6946)"

text \<open>
  The GeoJSON data \<open>buildRouteGeo\<close> returns: the coordinates and the title of the line
  feature, one point feature per waypoint, and the bounds. The constant members
  (\<open>type: "FeatureCollection"\<close> and the like) are left out.
\<close>

record PointFeature =
  coordinates :: "number \<times> number"
  label :: string
  kind :: string

record RouteGeo =
  line_coordinates :: "(number \<times> number) list"
  line_title :: string
  point_features :: "PointFeature list"
  bounds_sw :: "number \<times> number"
  bounds_ne :: "number \<times> number"

datatype js_error = TypeError

text \<open>
  \<^verbatim>\<open>
  const coords = route.points.map((p) => {
    const lngOffset = (p.x - 50) * 0.00075;
    const latOffset = (50 - p.y) * 0.00075;
    return [MAP_CENTER[0] + lngOffset, MAP_CENTER[1] + latOffset] as [number, number];
  });
  \<close>
\<close>

definition to_coord :: "Point \<Rightarrow> number \<times> number" where
  "to_coord p =
     (let lngOffset = (pt_x p - 50) * 0.00075;
          latOffset = (50 - pt_y p) * 0.00075
      in (fst MAP_CENTER + lngOffset, snd MAP_CENTER + latOffset))"

text \<open>
  The accumulator of \<open>coords.reduce\<close> is the pair (sw, ne). Its initial value spreads
  \<open>coords[0]\<close>, which throws a TypeError when the route has no points.
  \<^verbatim>\<open>
  label: route.points[idx].label ??
         (idx === 0 ? "Inicio" : idx === coords.length - 1 ? "Fin" : `P${idx + 1}`),
  kind: idx === 0 ? "start" : idx === coords.length - 1 ? "end" : "mid",
  \<close>
\<close>

definition bounds_step ::
  "(number \<times> number) \<times> (number \<times> number) \<Rightarrow> number \<times> number \<Rightarrow> (number \<times> number) \<times> (number \<times> number)" where
  "bounds_step acc c =
     (case acc of (sw, ne) \<Rightarrow> case c of (lng, lat) \<Rightarrow>
        ((min (fst sw) lng, min (snd sw) lat), (max (fst ne) lng, max (snd ne) lat)))"

definition point_feature :: "Point list \<Rightarrow> (number \<times> number) list \<Rightarrow> nat \<Rightarrow> PointFeature" where
  "point_feature pts coords idx =
     \<lparr>coordinates = coords ! idx,
      label = (case pt_label (pts ! idx) of
                 Some l \<Rightarrow> l
               | None \<Rightarrow> (if idx = 0 then ''Inicio''
                           else if idx = length coords - 1 then ''Fin''
                           else ''P'' @ nat_string (idx + 1))),
      kind = (if idx = 0 then ''start'' else if idx = length coords - 1 then ''end'' else ''mid'')\<rparr>"

definition buildRouteGeo :: "RouteOption \<Rightarrow> js_error + RouteGeo" where
  "buildRouteGeo route =
     (let coords = map to_coord (points route)
      in case coords of
           [] \<Rightarrow> Inl TypeError
         | c0 # _ \<Rightarrow>
             (let b = foldl bounds_step (c0, c0) coords
              in Inr \<lparr>line_coordinates = coords,
                      line_title = title route,
                      point_features = map (point_feature (points route) coords) [0 ..< length coords],
                      bounds_sw = fst b,
                      bounds_ne = snd b\<rparr>))"

text \<open>
  \<open>syncRouteLayers\<close>, the only caller, returns before the call when the route has no
  points (\<^verbatim>\<open>if (!route?.points?.length) return;\<close>); \<open>None\<close> is that early return.
\<close>

definition syncRouteLayers_geo :: "RouteOption \<Rightarrow> (js_error + RouteGeo) option" where
  "syncRouteLayers_geo route =
     (if length (points route) = 0 then None else Some (buildRouteGeo route))"

subsection \<open>The wording of the specification\<close>

text \<open>
  The default distances as the specification lists them: 4.5 km for walk, 6.5 km for jog,
  10.5 km for hike and 8.0 km for run.
\<close>

fun spec_default_distance :: "Mode \<Rightarrow> number" where
  "spec_default_distance Walk = 4.5"
| "spec_default_distance Jog = 6.5"
| "spec_default_distance Hike = 10.5"
| "spec_default_distance Run = 8.0"

text \<open>
  ``A number'': one or more digits, optionally followed by a dot or a comma and one or
  more digits.
\<close>

definition number_text :: "string \<Rightarrow> bool" where
  "number_text n \<longleftrightarrow>
     (\<exists>ip. ip \<noteq> [] \<and> list_all isDigit ip \<and>
        (n = ip \<or>
         (\<exists>sep fp. (sep = CHR ''.'' \<or> sep = CHR '','') \<and> fp \<noteq> [] \<and> list_all isDigit fp \<and>
            n = ip @ sep # fp)))"

text \<open>The unit words of the two patterns.\<close>

definition km_units :: "string set" where
  "km_units = {''km'', ''k'', ''kilometros'', ''kil'' @ [CHR 0xF3] @ ''metros''}"

definition mi_units :: "string set" where
  "mi_units = {''mi'', ''millas''}"

text \<open>
  ``\<open>s\<close> contains the number \<open>num\<close> followed by a unit'': \<open>num\<close> stands in \<open>s\<close> after the
  prefix \<open>pre\<close>, and white space (possibly none) and a unit word follow it.
\<close>

definition occurs_at :: "string set \<Rightarrow> string \<Rightarrow> string \<Rightarrow> string \<Rightarrow> bool" where
  "occurs_at units s pre num \<longleftrightarrow>
     number_text num \<and>
     (\<exists>ws u post. s = pre @ num @ ws @ u @ post \<and> list_all isSpace ws \<and> u \<in> units)"

text \<open>The keywords \<open>parsePrompt\<close> looks for, in the lower-cased prompt.\<close>

definition prompt_keywords :: "string list" where
  "prompt_keywords =
     [''caminar'', ''trot'', ''trail'', ''sendero'', ''correr'', ''r'' @ [CHR 0xE1] @ ''pido'',
      ''interval'', ''series'', ''tempo'', ''ritmo'', ''desnivel'', ''parque'', ''ilumin'',
      ''tr'' @ [CHR 0xE1] @ ''fico'']"

text \<open>
  The parts of a number: the digits \<open>ip\<close> before the separator and the digits \<open>fp\<close>
  after it (\<open>fp\<close> is empty when the number has no separator). Its value is
  \<open>digits_value ip + digits_value fp / 10 ^ length fp\<close>.
\<close>

definition number_parts :: "string \<Rightarrow> string \<Rightarrow> string \<Rightarrow> bool" where
  "number_parts num ip fp \<longleftrightarrow>
     ip \<noteq> [] \<and> list_all isDigit ip \<and> list_all isDigit fp \<and>
     (if fp = [] then num = ip else num = ip @ CHR ''.'' # fp \<or> num = ip @ CHR '','' # fp)"

subsection \<open>Notions used in the proofs\<close>

text \<open>A string that starts with a character no number contains.\<close>

definition good_head :: "string \<Rightarrow> bool" where
  "good_head t \<longleftrightarrow> t \<noteq> [] \<and> \<not> isDigit (hd t) \<and> hd t \<noteq> CHR ''.'' \<and> hd t \<noteq> CHR '',''"

text \<open>
  \<open>found rest s pre g\<close>: the pattern with this rest matches in \<open>s\<close> after the prefix
  \<open>pre\<close>, and its group 1 is \<open>g\<close>.
\<close>

definition found :: "regex \<Rightarrow> string \<Rightarrow> string \<Rightarrow> string \<Rightarrow> bool" where
  "found rest s pre g \<longleftrightarrow> number_text g \<and> (\<exists>t. s = pre @ g @ t \<and> matches rest t \<noteq> [])"

section \<open>Properties\<close>

subsection \<open>Estimated time\<close>

text \<open>
  C1. For every distance \<open>d\<close> and every mode \<open>m\<close>, \<open>estimateTime d m\<close> is
  \<open>d\<close> times the pace of the mode, rounded to the nearest integer, where the pace is
  11.5 for walk, 5.2 for run, 6.5 for jog and 10.5 for hike; \<open>estimateTime(8, "run")\<close>
  is 42.
\<close>

theorem estimateTime_round:
  "estimateTime d m = round (d * spec_pace m) \<and> estimateTime 8 Run = 42"
proof
  show "estimateTime d m = round (d * spec_pace m)"
    by (cases m) (simp_all add: estimateTime_def Math_round_def round_def)
  show "estimateTime 8 Run = 42"
    by (simp add: estimateTime_def Math_round_def)
qed

subsection \<open>The shape of a route\<close>

lemma generateShape_cases:
  "generateShape d =
     (if d \<le> 9 then shape_base
      else if d \<le> 12 then
        [\<lparr>pt_x = 12, pt_y = 86, pt_label = Some ''Inicio''\<rparr>,
         \<lparr>pt_x = 36, pt_y = 64, pt_label = None\<rparr>,
         \<lparr>pt_x = 48, pt_y = 56, pt_label = Some ''Punto''\<rparr>,
         \<lparr>pt_x = 58, pt_y = 50, pt_label = None\<rparr>,
         \<lparr>pt_x = 86, pt_y = 18, pt_label = Some ''Fin''\<rparr>]
      else
        [\<lparr>pt_x = 12, pt_y = 86, pt_label = Some ''Inicio''\<rparr>,
         \<lparr>pt_x = 26, pt_y = 74, pt_label = Some ''Extra''\<rparr>,
         \<lparr>pt_x = 36, pt_y = 64, pt_label = None\<rparr>,
         \<lparr>pt_x = 48, pt_y = 56, pt_label = Some ''Punto''\<rparr>,
         \<lparr>pt_x = 58, pt_y = 50, pt_label = None\<rparr>,
         \<lparr>pt_x = 86, pt_y = 18, pt_label = Some ''Fin''\<rparr>])"
  by (simp add: generateShape_def shape_base_def splice_insert_def Let_def)

lemma generateShape_length:
  "length (generateShape d) = (if d \<le> 9 then 4 else if d \<le> 12 then 5 else 6)"
  by (simp add: generateShape_cases shape_base_def)

lemma points_buildRouteFromPrompt: "points (buildRouteFromPrompt d m f) = generateShape d"
  by (simp add: buildRouteFromPrompt_def Let_def)

text \<open>
  C2. The waypoints are the four points of the base polyline when the distance is at
  most 9; above 9 a point is inserted before the third base point and the end point
  is replaced, which gives five points up to 12; above 12 a further point is inserted
  after the first one, which gives six points. The routes built for 10 km and for
  13 km have 5 and 6 points.
\<close>

theorem generateShape_points:
  "(d \<le> 9 \<longrightarrow> generateShape d = shape_base \<and> length (generateShape d) = 4) \<and>
   (9 < d \<and> d \<le> 12 \<longrightarrow>
      generateShape d =
        [shape_base ! 0, shape_base ! 1,
         \<lparr>pt_x = 48, pt_y = 56, pt_label = Some ''Punto''\<rparr>,
         shape_base ! 2,
         \<lparr>pt_x = 86, pt_y = 18, pt_label = Some ''Fin''\<rparr>] \<and>
      length (generateShape d) = 5) \<and>
   (12 < d \<longrightarrow>
      generateShape d =
        [shape_base ! 0,
         \<lparr>pt_x = 26, pt_y = 74, pt_label = Some ''Extra''\<rparr>,
         shape_base ! 1,
         \<lparr>pt_x = 48, pt_y = 56, pt_label = Some ''Punto''\<rparr>,
         shape_base ! 2,
         \<lparr>pt_x = 86, pt_y = 18, pt_label = Some ''Fin''\<rparr>] \<and>
      length (generateShape d) = 6) \<and>
   length (points (buildRouteFromPrompt d m f)) = length (generateShape d) \<and>
   length (points (buildRouteFromPrompt 10 Run ''Parks'')) = 5 \<and>
   length (points (buildRouteFromPrompt 13 Run ''Parks'')) = 6"
  by (simp add: generateShape_cases points_buildRouteFromPrompt shape_base_def)

theorem generateShape_points_witness:
  "length (generateShape 9) = 4 \<and> length (generateShape 9.1) = 5 \<and>
   length (generateShape 12) = 5 \<and> length (generateShape 12.5) = 6"
proof -
  have "(9::real) \<le> 9" by simp
  with generateShape_points [of 9 Run "[]"]
  have a: "length (generateShape 9) = 4" by blast
  have "(9::real) < 9.1 \<and> (9.1::real) \<le> 12" by simp
  with generateShape_points [of "9.1" Run "[]"]
  have b: "length (generateShape 9.1) = 5" by blast
  have "(9::real) < 12 \<and> (12::real) \<le> 12" by simp
  with generateShape_points [of 12 Run "[]"]
  have c: "length (generateShape 12) = 5" by blast
  have "(12::real) < 12.5" by simp
  with generateShape_points [of "12.5" Run "[]"]
  have d: "length (generateShape 12.5) = 6" by blast
  from a b c d show ?thesis by blast
qed

subsection \<open>Route ids and the per-mode list\<close>

lemma id_buildRouteFromPrompt:
  "id' (buildRouteFromPrompt d m f) = ''coach-'' @ mode_string m @ ''-'' @ int_string (Math_round (d * 10))"
  by (simp add: buildRouteFromPrompt_def Let_def)

lemma insert_route_same:
  "insert_route md r prev md = filter (\<lambda>x. id' x \<noteq> id' r) (prev md) @ [r]"
  by (simp add: insert_route_def Let_def)

lemma insert_route_other:
  "m \<noteq> md \<Longrightarrow> insert_route md r prev m = prev m"
  by (simp add: insert_route_def Let_def)

lemma insert_route_distinct:
  assumes "distinct (map id' (prev m))"
  shows "distinct (map id' (insert_route md r prev m))"
proof (cases "m = md")
  case True
  have "distinct (map id' (filter (\<lambda>x. id' x \<noteq> id' r) (prev md)))"
    using assms True by (simp add: distinct_map_filter)
  moreover have "id' r \<notin> set (map id' (filter (\<lambda>x. id' x \<noteq> id' r) (prev md)))"
    by auto
  ultimately show ?thesis
    using True by (simp add: insert_route_same)
next
  case False
  then show ?thesis using assms by (simp add: insert_route_other)
qed

lemma insert_route_once:
  "filter (\<lambda>x. id' x = id' r) (insert_route md r prev md) = [r]"
proof -
  have "filter (\<lambda>x. id' x = id' r) (filter (\<lambda>x. id' x \<noteq> id' r) (prev md)) = []"
    by (simp add: filter_empty_conv)
  then show ?thesis by (simp add: insert_route_same)
qed

lemma customRoutes_handleCoachPlan:
  "customRoutes (handleCoachPlan s) =
     (if trim (coachPrompt s) = [] then customRoutes s
      else insert_route (mode (parsePrompt (trim (coachPrompt s)) (cur_mode s)))
             (coach_route (parsePrompt (trim (coachPrompt s)) (cur_mode s))) (customRoutes s))"
  by (simp add: handleCoachPlan_def Let_def)

lemma customRoutes_selectMode: "customRoutes (selectMode m s) = customRoutes s"
  by (simp add: selectMode_def Let_def split: list.split)

lemma step_distinct:
  assumes "\<And>m. distinct (map id' (customRoutes s m))"
  shows "distinct (map id' (customRoutes (step s e) m))"
proof (cases e)
  case CoachPlan
  then show ?thesis
    using assms by (simp add: customRoutes_handleCoachPlan insert_route_distinct)
next
  case (SelectMode m')
  then show ?thesis using assms by (simp add: customRoutes_selectMode)
qed (use assms in simp_all)

lemma run_events_snoc: "run_events (es @ [e]) = step (run_events es) e"
  by (simp add: run_events_def)

lemma run_events_distinct: "distinct (map id' (customRoutes (run_events es) m))"
proof (induction es arbitrary: m rule: rev_induct)
  case Nil
  show ?case by (simp add: run_events_def initial_state_def)
next
  case (snoc e es)
  show ?case unfolding run_events_snoc by (rule step_distinct) (rule snoc.IH)
qed

lemma coach_route_id: "hd (id' (coach_route p)) = CHR ''c''"
  by (simp add: coach_route_def id_buildRouteFromPrompt)

lemma baseRoutes_ids: "r \<in> set (baseRoutes m) \<Longrightarrow> hd (id' r) \<noteq> CHR ''c''"
  by (cases m) auto

lemma baseRoutes_distinct: "distinct (map id' (baseRoutes m))"
  by (cases m) simp_all

lemma step_coach_ids:
  assumes "\<And>m r. r \<in> set (customRoutes s m) \<Longrightarrow> hd (id' r) = CHR ''c''"
    and "r \<in> set (customRoutes (step s e) m)"
  shows "hd (id' r) = CHR ''c''"
proof (cases e)
  case CoachPlan
  show ?thesis
  proof (cases "trim (coachPrompt s) = []")
    case True
    with CoachPlan assms show ?thesis by (simp add: customRoutes_handleCoachPlan)
  next
    case False
    let ?p = "parsePrompt (trim (coachPrompt s)) (cur_mode s)"
    from False CoachPlan assms(2)
    have "r \<in> set (insert_route (mode ?p) (coach_route ?p) (customRoutes s) m)"
      by (simp add: customRoutes_handleCoachPlan)
    then have "r \<in> set (customRoutes s m) \<or> r = coach_route ?p"
      by (auto simp: insert_route_def Let_def split: if_splits)
    then show ?thesis using assms(1) coach_route_id by blast
  qed
next
  case (SelectMode m')
  with assms show ?thesis by (simp add: customRoutes_selectMode)
qed (use assms in simp_all)

lemma run_events_coach_ids:
  "r \<in> set (customRoutes (run_events es) m) \<Longrightarrow> hd (id' r) = CHR ''c''"
proof (induction es arbitrary: r m rule: rev_induct)
  case Nil
  then show ?case by (simp add: run_events_def initial_state_def)
next
  case (snoc e es)
  from snoc.prems have "r \<in> set (customRoutes (step (run_events es) e) m)"
    by (simp add: run_events_snoc)
  with snoc.IH show ?case by (rule step_coach_ids)
qed

lemma routes_distinct: "distinct (map id' (routes (run_events es)))"
proof -
  let ?s = "run_events es"
  have "id' ` set (baseRoutes (cur_mode ?s)) \<inter> id' ` set (customRoutes ?s (cur_mode ?s)) = {}"
    using baseRoutes_ids run_events_coach_ids by fastforce
  then show ?thesis
    by (simp add: routes_def baseRoutes_distinct run_events_distinct)
qed

text \<open>
  C3. Two distances that agree after scaling by 10 and rounding give, for the same
  mode, routes with the same id. Inserting a route into the list of its mode drops
  the entries with its id and appends it, so that afterwards exactly the new route
  has that id, ids that were pairwise distinct stay so, and in every state the page
  can reach no per-mode list holds two routes with the same id, also when the
  catalogue routes of the mode are put in front of it.
\<close>

theorem route_id_overwrite:
  "(Math_round (d1 * 10) = Math_round (d2 * 10) \<longrightarrow>
      id' (buildRouteFromPrompt d1 m f1) = id' (buildRouteFromPrompt d2 m f2)) \<and>
   insert_route m r prev m = filter (\<lambda>x. id' x \<noteq> id' r) (prev m) @ [r] \<and>
   filter (\<lambda>x. id' x = id' r) (insert_route m r prev m) = [r] \<and>
   (distinct (map id' (prev m)) \<longrightarrow> distinct (map id' (insert_route m r prev m))) \<and>
   distinct (map id' (customRoutes (run_events es) m)) \<and>
   distinct (map id' (routes (run_events es)))"
  using insert_route_distinct [of prev m m r]
  by (simp add: id_buildRouteFromPrompt insert_route_once run_events_distinct routes_distinct
      insert_route_same [symmetric])

theorem route_id_overwrite_witness:
  "Math_round (7 * 10) = Math_round (7.04 * 10) \<and>
   id' (buildRouteFromPrompt 7 Run ''Parques'') = id' (buildRouteFromPrompt 7.04 Run ''Ruta equilibrada'') \<and>
   insert_route Run (buildRouteFromPrompt 7.04 Run ''Ruta equilibrada'')
     (\<lambda>_. [buildRouteFromPrompt 7 Run ''Parques'']) Run =
     [buildRouteFromPrompt 7.04 Run ''Ruta equilibrada''] \<and>
   distinct (map id' (insert_route Run (buildRouteFromPrompt 7.04 Run ''Ruta equilibrada'')
     (\<lambda>_. [buildRouteFromPrompt 7 Run ''Parques'']) Run))"
proof -
  have r: "Math_round (7 * 10) = Math_round (7.04 * 10)"
    by (simp add: Math_round_def)
  note t = route_id_overwrite [of 7 "7.04" Run "''Parques''" "''Ruta equilibrada''"
      "buildRouteFromPrompt 7.04 Run ''Ruta equilibrada''"
      "\<lambda>_. [buildRouteFromPrompt 7 Run ''Parques'']" "[]"]
  from t r have i: "id' (buildRouteFromPrompt 7 Run ''Parques'') =
      id' (buildRouteFromPrompt 7.04 Run ''Ruta equilibrada'')"
    by blast
  from t have "insert_route Run (buildRouteFromPrompt 7.04 Run ''Ruta equilibrada'')
     (\<lambda>_. [buildRouteFromPrompt 7 Run ''Parques'']) Run =
     filter (\<lambda>x. id' x \<noteq> id' (buildRouteFromPrompt 7.04 Run ''Ruta equilibrada''))
       [buildRouteFromPrompt 7 Run ''Parques''] @ [buildRouteFromPrompt 7.04 Run ''Ruta equilibrada'']"
    by blast
  with i have l: "insert_route Run (buildRouteFromPrompt 7.04 Run ''Ruta equilibrada'')
     (\<lambda>_. [buildRouteFromPrompt 7 Run ''Parques'']) Run =
     [buildRouteFromPrompt 7.04 Run ''Ruta equilibrada'']"
    by simp
  from r i l show ?thesis by simp
qed

subsection \<open>The default distance\<close>

lemma suggestDistance_spec: "suggestDistance m = spec_default_distance m"
  by (cases m) (simp_all add: suggestDistance_def)

lemma trim_trail: "trim ''  Un trail con desnivel '' = ''Un trail con desnivel''"
  by code_simp

lemma parse_trail: "parsePrompt ''Un trail con desnivel'' Run = \<lparr>mode = Hike, distanceKm = None, focus = ''Terreno mixto'', intent = Trail\<rparr>"
  by code_simp

text \<open>
  C10. When the prompt is not blank and yields no distance, \<open>handleCoachPlan\<close> takes the
  default distance of the parsed mode (4.5 for walk, 6.5 for jog, 10.5 for hike,
  8.0 for run), builds the route from it, and stores that route in the list of the
  parsed mode.
\<close>

theorem default_distance:
  assumes "trim (coachPrompt s) \<noteq> []"
    and "distanceKm (parsePrompt (trim (coachPrompt s)) (cur_mode s)) = None"
  shows "\<exists>m' f'. m' = mode (parsePrompt (trim (coachPrompt s)) (cur_mode s)) \<and>
           f' = focus (parsePrompt (trim (coachPrompt s)) (cur_mode s)) \<and>
           suggestDistance Walk = 4.5 \<and> suggestDistance Jog = 6.5 \<and>
           suggestDistance Hike = 10.5 \<and> suggestDistance Run = 8.0 \<and>
           suggestDistance m' = spec_default_distance m' \<and>
           handleCoachPlan s =
             s\<lparr>cur_mode := m',
               customRoutes := insert_route m' (buildRouteFromPrompt (spec_default_distance m') m' f') (customRoutes s),
               activeRouteId := id' (buildRouteFromPrompt (spec_default_distance m') m' f')\<rparr> \<and>
           last (customRoutes (handleCoachPlan s) m') = buildRouteFromPrompt (spec_default_distance m') m' f' \<and>
           distanceKm' (last (customRoutes (handleCoachPlan s) m')) = spec_default_distance m'"
  using assms
  by (simp add: handleCoachPlan_def Let_def coach_route_def coach_distance_def
      suggestDistance_spec insert_route_same buildRouteFromPrompt_def)

theorem default_distance_witness:
  "distanceKm' (last (customRoutes (handleCoachPlan (initial_state\<lparr>coachPrompt := ''  Un trail con desnivel ''\<rparr>)) Hike)) = 10.5"
proof -
  let ?s = "initial_state\<lparr>coachPrompt := ''  Un trail con desnivel ''\<rparr>"
  have p: "parsePrompt (trim (coachPrompt ?s)) (cur_mode ?s) =
      \<lparr>mode = Hike, distanceKm = None, focus = ''Terreno mixto'', intent = Trail\<rparr>"
    by (simp add: trim_trail initial_state_def parse_trail)
  have t: "trim (coachPrompt ?s) \<noteq> []"
    by (simp add: trim_trail)
  have d: "distanceKm (parsePrompt (trim (coachPrompt ?s)) (cur_mode ?s)) = None"
    by (simp only: p Intent.simps)
  from default_distance [OF t d]
  have "distanceKm' (last (customRoutes (handleCoachPlan ?s) Hike)) = spec_default_distance Hike"
    by (simp only: p Intent.simps) blast
  then show ?thesis by simp
qed

subsection \<open>The matcher\<close>

lemma matches_Star_Class_Nil: "matches (Star (Class p)) [] = [[]]"
  by (simp add: matches.simps(2,6))

lemma matches_Star_Class_Cons:
  "matches (Star (Class p)) (c # cs) =
     (if p c then matches (Star (Class p)) cs @ [c # cs] else [c # cs])"
  by (simp add: matches.simps(2) matches.simps(6) [of "Class p" "c # cs"])

lemma self_in_matches_Star_Class: "s \<in> set (matches (Star (Class p)) s)"
  by (cases s) (simp_all add: matches_Star_Class_Nil matches_Star_Class_Cons)

lemma in_matches_Star_Class:
  "t \<in> set (matches (Star (Class p)) s) \<longleftrightarrow> (\<exists>w. s = w @ t \<and> list_all p w)"
proof (induction s)
  case Nil
  show ?case by (auto simp: matches_Star_Class_Nil)
next
  case (Cons c cs)
  show ?case
  proof
    assume "t \<in> set (matches (Star (Class p)) (c # cs))"
    then consider "p c" "t \<in> set (matches (Star (Class p)) cs)" | "t = c # cs"
      by (auto simp: matches_Star_Class_Cons split: if_splits)
    then show "\<exists>w. c # cs = w @ t \<and> list_all p w"
    proof cases
      case 1
      then obtain w where "cs = w @ t" "list_all p w" using Cons.IH by blast
      then have "c # cs = (c # w) @ t \<and> list_all p (c # w)" using 1 by simp
      then show ?thesis by blast
    next
      case 2
      then have "c # cs = [] @ t \<and> list_all p []" by simp
      then show ?thesis by blast
    qed
  next
    assume "\<exists>w. c # cs = w @ t \<and> list_all p w"
    then obtain w where w: "c # cs = w @ t" "list_all p w" by blast
    show "t \<in> set (matches (Star (Class p)) (c # cs))"
    proof (cases w)
      case Nil
      then have "t = c # cs" using w by simp
      then show ?thesis by (simp only: self_in_matches_Star_Class)
    next
      case (Cons a w')
      then have "p c" "cs = w' @ t" "list_all p w'" using w by auto
      then show ?thesis using Cons.IH by (auto simp: matches_Star_Class_Cons)
    qed
  qed
qed

lemma in_matches_Class:
  "t \<in> set (matches (Class p) s) \<longleftrightarrow> (\<exists>c. p c \<and> s = c # t)"
  by (cases s) (auto simp: matches.simps(2))

lemma in_matches_Seq:
  "t \<in> set (matches (Seq r1 r2) s) \<longleftrightarrow> (\<exists>u. u \<in> set (matches r1 s) \<and> t \<in> set (matches r2 u))"
  by (auto simp: matches.simps(3))

lemma in_matches_Plus_Class:
  "t \<in> set (matches (Plus (Class p)) s) \<longleftrightarrow> (\<exists>w. w \<noteq> [] \<and> list_all p w \<and> s = w @ t)"
proof
  assume "t \<in> set (matches (Plus (Class p)) s)"
  then obtain u where u: "u \<in> set (matches (Class p) s)" "t \<in> set (matches (Star (Class p)) u)"
    unfolding Plus_def in_matches_Seq by blast
  then obtain c w where "p c" "s = c # u" "u = w @ t" "list_all p w"
    unfolding in_matches_Class in_matches_Star_Class by blast
  then have "c # w \<noteq> [] \<and> list_all p (c # w) \<and> s = (c # w) @ t" by simp
  then show "\<exists>w. w \<noteq> [] \<and> list_all p w \<and> s = w @ t" by blast
next
  assume "\<exists>w. w \<noteq> [] \<and> list_all p w \<and> s = w @ t"
  then obtain w where w: "w \<noteq> []" "list_all p w" "s = w @ t" by blast
  then obtain c w' where c: "w = c # w'" by (cases w) auto
  with w have "w' @ t \<in> set (matches (Class p) s)" "t \<in> set (matches (Star (Class p)) (w' @ t))"
    unfolding in_matches_Class in_matches_Star_Class by auto
  then show "t \<in> set (matches (Plus (Class p)) s)"
    unfolding Plus_def in_matches_Seq by blast
qed

lemma in_matches_Lit: "t \<in> set (matches (Lit k) s) \<longleftrightarrow> s = k @ t"
proof (induction k arbitrary: s)
  case Nil
  show ?case by (auto simp: matches.simps(1))
next
  case (Cons c k)
  show ?case
    unfolding Lit.simps in_matches_Seq in_matches_Class using Cons.IH by auto
qed

lemma in_matches_Opt: "t \<in> set (matches (Opt r) s) \<longleftrightarrow> t \<in> set (matches r s) \<or> t = s"
  by (auto simp: matches.simps(5))

lemma in_matches_Alt:
  "t \<in> set (matches (Alt r1 r2) s) \<longleftrightarrow> t \<in> set (matches r1 s) \<or> t \<in> set (matches r2 s)"
  by (auto simp: matches.simps(4))

lemma in_matches_number_group:
  "t \<in> set (matches number_group s) \<longleftrightarrow> (\<exists>n. number_text n \<and> s = n @ t)"
proof
  assume "t \<in> set (matches number_group s)"
  then obtain u where u: "u \<in> set (matches (Plus (Class isDigit)) s)"
    and t: "t \<in> set (matches (Opt (Seq (Class (\<lambda>c. c = CHR ''.'' \<or> c = CHR '','')) (Plus (Class isDigit)))) u)"
    unfolding number_group_def in_matches_Seq by blast
  from u obtain ip where ip: "ip \<noteq> []" "list_all isDigit ip" "s = ip @ u"
    unfolding in_matches_Plus_Class by blast
  from t have "t = u \<or>
      (\<exists>v. (\<exists>c. (c = CHR ''.'' \<or> c = CHR '','') \<and> u = c # v) \<and>
           (\<exists>w. w \<noteq> [] \<and> list_all isDigit w \<and> v = w @ t))"
    unfolding in_matches_Opt in_matches_Seq in_matches_Class in_matches_Plus_Class by blast
  then consider "t = u"
    | sep fp where "sep = CHR ''.'' \<or> sep = CHR '',''" "fp \<noteq> []" "list_all isDigit fp" "u = sep # fp @ t"
    by blast
  then show "\<exists>n. number_text n \<and> s = n @ t"
  proof cases
    case 1
    have "number_text ip"
      unfolding number_text_def by (rule exI [of _ ip]) (use ip in blast)
    moreover have "s = ip @ t" using ip 1 by simp
    ultimately show ?thesis by blast
  next
    case 2
    have "number_text (ip @ sep # fp)"
      unfolding number_text_def by (rule exI [of _ ip]) (use ip 2 in blast)
    moreover have "s = (ip @ sep # fp) @ t" using ip 2 by simp
    ultimately show ?thesis by blast
  qed
next
  assume "\<exists>n. number_text n \<and> s = n @ t"
  then obtain n where n: "number_text n" "s = n @ t" by blast
  then obtain ip where ip: "ip \<noteq> []" "list_all isDigit ip"
    and c: "n = ip \<or> (\<exists>sep fp. (sep = CHR ''.'' \<or> sep = CHR '','') \<and> fp \<noteq> [] \<and> list_all isDigit fp \<and> n = ip @ sep # fp)"
    unfolding number_text_def by blast
  from c show "t \<in> set (matches number_group s)"
  proof
    assume "n = ip"
    with n ip have "t \<in> set (matches (Plus (Class isDigit)) s)"
      unfolding in_matches_Plus_Class by blast
    then show ?thesis
      unfolding number_group_def in_matches_Seq in_matches_Opt by blast
  next
    assume "\<exists>sep fp. (sep = CHR ''.'' \<or> sep = CHR '','') \<and> fp \<noteq> [] \<and> list_all isDigit fp \<and> n = ip @ sep # fp"
    then obtain sep fp where f: "sep = CHR ''.'' \<or> sep = CHR '',''" "fp \<noteq> []" "list_all isDigit fp" "n = ip @ sep # fp"
      by blast
    with n ip have "sep # fp @ t \<in> set (matches (Plus (Class isDigit)) s)"
      unfolding in_matches_Plus_Class by auto
    moreover from f have "t \<in> set (matches (Seq (Class (\<lambda>c. c = CHR ''.'' \<or> c = CHR '','')) (Plus (Class isDigit))) (sep # fp @ t))"
      unfolding in_matches_Seq in_matches_Class in_matches_Plus_Class by auto
    ultimately show ?thesis
      unfolding number_group_def in_matches_Seq in_matches_Opt by blast
  qed
qed

lemma isSpace_not_digit: "isSpace c \<Longrightarrow> \<not> isDigit c \<and> c \<noteq> CHR ''.'' \<and> c \<noteq> CHR '',''"
  by (auto simp: isSpace_def isDigit_def)

lemma isDigit_not_sep: "isDigit c \<Longrightarrow> c \<noteq> CHR ''.'' \<and> c \<noteq> CHR '',''"
  by (auto simp: isDigit_def)

lemma number_text_chars:
  assumes "number_text n" "c \<in> set n"
  shows "isDigit c \<or> c = CHR ''.'' \<or> c = CHR '',''"
  using assms unfolding number_text_def by (auto simp: list_all_iff)

lemma number_text_nonempty: "number_text n \<Longrightarrow> n \<noteq> []"
  unfolding number_text_def by auto

lemma number_text_extension:
  assumes "number_text n" "n = n' @ us" "us \<noteq> []"
  shows "\<not> good_head (us @ t)"
proof -
  from assms(3) have "hd us \<in> set n" using assms(2) by (cases us) auto
  with assms(1) have "isDigit (hd us) \<or> hd us = CHR ''.'' \<or> hd us = CHR '',''"
    by (rule number_text_chars)
  moreover have "hd (us @ t) = hd us" using assms(3) by simp
  ultimately show ?thesis unfolding good_head_def by auto
qed

lemma number_text_unique:
  assumes "number_text n" "number_text n'" "n @ t = n' @ t'" "good_head t" "good_head t'"
  shows "n = n'"
proof -
  from assms(3) obtain us where "n = n' @ us \<and> us @ t = t' \<or> n @ us = n' \<and> t = us @ t'"
    unfolding append_eq_append_conv2 by blast
  then show ?thesis
  proof
    assume a: "n = n' @ us \<and> us @ t = t'"
    show ?thesis
    proof (cases "us = []")
      case True
      with a show ?thesis by simp
    next
      case False
      with assms(1) a have "\<not> good_head (us @ t)" using number_text_extension by blast
      with a assms(5) show ?thesis by simp
    qed
  next
    assume a: "n @ us = n' \<and> t = us @ t'"
    show ?thesis
    proof (cases "us = []")
      case True
      with a show ?thesis by simp
    next
      case False
      with assms(2) a have "\<not> good_head (us @ t')" using number_text_extension [of n' n us t'] by blast
      with a assms(4) show ?thesis by simp
    qed
  qed
qed

lemma exec_at_Some_D:
  assumes "exec_at number_group rest s = Some g"
  shows "number_text g \<and> (\<exists>t. s = g @ t \<and> matches rest t \<noteq> [])"
proof -
  from assms obtain t ts where f: "filter (\<lambda>t. matches rest t \<noteq> []) (matches number_group s) = t # ts"
    and g: "g = take (length s - length t) s"
    unfolding exec_at_def by (auto split: list.splits)
  from f have "t \<in> set (filter (\<lambda>t. matches rest t \<noteq> []) (matches number_group s))" by simp
  then have t: "t \<in> set (matches number_group s)" "matches rest t \<noteq> []" by auto
  then obtain n where n: "number_text n" "s = n @ t" unfolding in_matches_number_group by blast
  with g have "g = n" by simp
  with n t show ?thesis by blast
qed

lemma exec_at_None_iff:
  "exec_at number_group rest s = None \<longleftrightarrow>
     \<not> (\<exists>g t. number_text g \<and> s = g @ t \<and> matches rest t \<noteq> [])"
proof -
  have "exec_at number_group rest s = None \<longleftrightarrow>
      filter (\<lambda>t. matches rest t \<noteq> []) (matches number_group s) = []"
    unfolding exec_at_def by (auto split: list.splits)
  also have "\<dots> \<longleftrightarrow> (\<forall>t. t \<in> set (matches number_group s) \<longrightarrow> matches rest t = [])"
    unfolding filter_empty_conv by blast
  also have "\<dots> \<longleftrightarrow> \<not> (\<exists>g t. number_text g \<and> s = g @ t \<and> matches rest t \<noteq> [])"
    unfolding in_matches_number_group by blast
  finally show ?thesis .
qed

lemma exec_at_Some_I:
  assumes good: "\<And>t. matches rest t \<noteq> [] \<Longrightarrow> good_head t"
    and "number_text g" "matches rest t \<noteq> []"
  shows "exec_at number_group rest (g @ t) = Some g"
proof -
  have "exec_at number_group rest (g @ t) \<noteq> None"
    unfolding exec_at_None_iff using assms(2,3) by blast
  then obtain g' where g': "exec_at number_group rest (g @ t) = Some g'" by blast
  from exec_at_Some_D [OF g'] obtain t' where
    "number_text g'" "g @ t = g' @ t'" "matches rest t' \<noteq> []" by blast
  with assms(2,3) have "g = g'"
    using number_text_unique [of g g' t t'] good by blast
  with g' show ?thesis by simp
qed

lemma found_Nil: "\<not> found rest [] pre g"
  unfolding found_def using number_text_nonempty by auto

lemma found_Cons:
  "found rest (c # cs) pre g \<longleftrightarrow>
     (pre = [] \<and> found rest (c # cs) [] g) \<or> (\<exists>pre'. pre = c # pre' \<and> found rest cs pre' g)"
  unfolding found_def by (cases pre) auto

lemma exec_at_None_found: "exec_at number_group rest s = None \<longleftrightarrow> (\<forall>g. \<not> found rest s [] g)"
  unfolding exec_at_None_iff found_def by auto

lemma exec_at_Some_found: "exec_at number_group rest s = Some g \<Longrightarrow> found rest s [] g"
  unfolding found_def using exec_at_Some_D by auto

lemma match_first_None_iff:
  "match_first number_group rest s = None \<longleftrightarrow> (\<forall>pre g. \<not> found rest s pre g)"
proof (induction s)
  case Nil
  show ?case using found_Nil exec_at_None_found by simp
next
  case (Cons c cs)
  have "match_first number_group rest (c # cs) = None \<longleftrightarrow>
      exec_at number_group rest (c # cs) = None \<and> match_first number_group rest cs = None"
    by (simp split: option.splits)
  also have "\<dots> \<longleftrightarrow> (\<forall>g. \<not> found rest (c # cs) [] g) \<and> (\<forall>pre g. \<not> found rest cs pre g)"
    unfolding exec_at_None_found Cons.IH ..
  also have "\<dots> \<longleftrightarrow> (\<forall>pre g. \<not> found rest (c # cs) pre g)"
    using found_Cons [of rest c cs] by blast
  finally show ?case .
qed

lemma match_first_Some_D:
  assumes "match_first number_group rest s = Some g"
  shows "\<exists>pre. found rest s pre g \<and> (\<forall>pre' g'. found rest s pre' g' \<longrightarrow> length pre \<le> length pre')"
  using assms
proof (induction s)
  case Nil
  then have "found rest [] [] g" using exec_at_Some_found by simp
  then show ?case using found_Nil by blast
next
  case (Cons c cs)
  show ?case
  proof (cases "exec_at number_group rest (c # cs)")
    case (Some g')
    with Cons.prems have "g' = g" by simp
    with Some have "found rest (c # cs) [] g" using exec_at_Some_found by blast
    then have "found rest (c # cs) [] g \<and>
        (\<forall>pre' g'. found rest (c # cs) pre' g' \<longrightarrow> length ([]::string) \<le> length pre')" by simp
    then show ?thesis by blast
  next
    case None
    with Cons.prems have "match_first number_group rest cs = Some g" by simp
    with Cons.IH obtain pre where pre: "found rest cs pre g"
      "\<forall>pre' g'. found rest cs pre' g' \<longrightarrow> length pre \<le> length pre'" by blast
    have "found rest (c # cs) (c # pre) g" using pre(1) found_Cons by blast
    moreover have "\<forall>pre' g'. found rest (c # cs) pre' g' \<longrightarrow> length (c # pre) \<le> length pre'"
    proof (intro allI impI)
      fix pre' g'
      assume "found rest (c # cs) pre' g'"
      then obtain p where "pre' = c # p" "found rest cs p g'"
        using None found_Cons [of rest c cs pre' g'] exec_at_None_found by blast
      with pre(2) show "length (c # pre) \<le> length pre'" by auto
    qed
    ultimately show ?thesis by blast
  qed
qed

lemma match_first_number_text: "match_first number_group rest s = Some g \<Longrightarrow> number_text g"
  using match_first_Some_D unfolding found_def by blast

lemma match_first_Some_I:
  assumes good: "\<And>t. matches rest t \<noteq> [] \<Longrightarrow> good_head t"
    and "found rest s pre g"
    and "\<forall>pre' g'. found rest s pre' g' \<longrightarrow> length pre \<le> length pre'"
  shows "match_first number_group rest s = Some g"
proof -
  have "match_first number_group rest s \<noteq> None"
    unfolding match_first_None_iff using assms(2) by blast
  then obtain g0 where g0: "match_first number_group rest s = Some g0" by blast
  from match_first_Some_D [OF g0] obtain p0 where p0: "found rest s p0 g0"
    "\<forall>pre' g'. found rest s pre' g' \<longrightarrow> length p0 \<le> length pre'" by blast
  from p0 assms(2,3) have len: "length p0 = length pre" by (meson le_antisym)
  from p0(1) obtain t0 where t0: "number_text g0" "s = p0 @ g0 @ t0" "matches rest t0 \<noteq> []"
    unfolding found_def by blast
  from assms(2) obtain t where t: "number_text g" "s = pre @ g @ t" "matches rest t \<noteq> []"
    unfolding found_def by blast
  from t0(2) t(2) len have "p0 = pre" "g0 @ t0 = g @ t" by auto
  with t0 t have "g0 = g" using number_text_unique [of g0 g t0 t] good by blast
  with g0 show ?thesis by simp
qed

lemma matches_nonempty_iff: "matches r t \<noteq> [] \<longleftrightarrow> (\<exists>x. x \<in> set (matches r t))"
  by (cases "matches r t") auto

lemma in_matches_km_units:
  "x \<in> set (matches (Alt (Lit ''km'') (Alt (Lit ''k'')
        (Seq (Lit ''kil'') (Seq (Class (\<lambda>c. c = CHR ''o'' \<or> c = CHR 0xF3)) (Lit ''metros''))))) u)
   \<longleftrightarrow> (\<exists>w. w \<in> km_units \<and> u = w @ x)"
proof -
  have "(\<exists>v. u = ''kil'' @ v \<and> (\<exists>v'. (\<exists>c. (c = CHR ''o'' \<or> c = CHR 0xF3) \<and> v = c # v') \<and> v' = ''metros'' @ x))
      \<longleftrightarrow> u = ''kilometros'' @ x \<or> u = (''kil'' @ [CHR 0xF3] @ ''metros'') @ x"
    by auto
  moreover have "(\<exists>w. w \<in> km_units \<and> u = w @ x) \<longleftrightarrow>
      u = ''km'' @ x \<or> u = ''k'' @ x \<or> u = ''kilometros'' @ x \<or>
      u = (''kil'' @ [CHR 0xF3] @ ''metros'') @ x"
    unfolding km_units_def by blast
  ultimately show ?thesis
    unfolding in_matches_Alt in_matches_Seq in_matches_Class in_matches_Lit
    by blast
qed

lemma in_matches_mi_units:
  "x \<in> set (matches (Alt (Lit ''mi'') (Lit ''millas'')) u) \<longleftrightarrow> (\<exists>w. w \<in> mi_units \<and> u = w @ x)"
  unfolding in_matches_Alt in_matches_Lit mi_units_def by blast

lemma km_rest_matches:
  "matches km_rest t \<noteq> [] \<longleftrightarrow>
     (\<exists>ws u post. t = ws @ u @ post \<and> list_all isSpace ws \<and> u \<in> km_units)"
  unfolding matches_nonempty_iff km_rest_def in_matches_Seq in_matches_Star_Class in_matches_km_units
  by blast

lemma mi_rest_matches:
  "matches mi_rest t \<noteq> [] \<longleftrightarrow>
     (\<exists>ws u post. t = ws @ u @ post \<and> list_all isSpace ws \<and> u \<in> mi_units)"
  unfolding matches_nonempty_iff mi_rest_def in_matches_Seq in_matches_Star_Class in_matches_mi_units
  by blast

lemma good_head_spaces:
  assumes "list_all isSpace ws" "good_head u"
  shows "good_head (ws @ u)"
proof (cases ws)
  case Nil
  with assms show ?thesis by simp
next
  case (Cons c cs)
  with assms(1) have "isSpace c" by simp
  then show ?thesis using Cons isSpace_not_digit unfolding good_head_def by auto
qed

lemma good_head_km: "matches km_rest t \<noteq> [] \<Longrightarrow> good_head t"
proof -
  assume "matches km_rest t \<noteq> []"
  then obtain ws u post where t: "t = ws @ u @ post" "list_all isSpace ws" "u \<in> km_units"
    unfolding km_rest_matches by blast
  from t(3) have "good_head (u @ post)"
    unfolding km_units_def good_head_def by (auto simp: isDigit_def)
  with t show ?thesis using good_head_spaces by blast
qed

lemma good_head_mi: "matches mi_rest t \<noteq> [] \<Longrightarrow> good_head t"
proof -
  assume "matches mi_rest t \<noteq> []"
  then obtain ws u post where t: "t = ws @ u @ post" "list_all isSpace ws" "u \<in> mi_units"
    unfolding mi_rest_matches by blast
  from t(3) have "good_head (u @ post)"
    unfolding mi_units_def good_head_def by (auto simp: isDigit_def)
  with t show ?thesis using good_head_spaces by blast
qed

lemma found_km: "found km_rest s pre g \<longleftrightarrow> occurs_at km_units s pre g"
  unfolding found_def occurs_at_def km_rest_matches by blast

lemma found_mi: "found mi_rest s pre g \<longleftrightarrow> occurs_at mi_units s pre g"
  unfolding found_def occurs_at_def mi_rest_matches by blast

lemma leftmostI:
  assumes "list_all (\<lambda>k. exec_at number_group rest (drop k s) = None) [0 ..< length pre]"
  shows "\<forall>pre' num'. found rest s pre' num' \<longrightarrow> length pre \<le> length pre'"
proof (intro allI impI, rule ccontr)
  fix pre' num'
  assume f: "found rest s pre' num'" and "\<not> length pre \<le> length pre'"
  then have "exec_at number_group rest (drop (length pre') s) = None"
    using assms by (simp add: list_all_iff)
  moreover from f obtain t where "number_text num'" "s = pre' @ num' @ t" "matches rest t \<noteq> []"
    unfolding found_def by blast
  ultimately show False
    unfolding exec_at_None_iff by auto
qed

lemma occurs_atI:
  assumes "number_text num" "s = pre @ num @ ws @ u @ post" "list_all isSpace ws" "u \<in> units"
  shows "occurs_at units s pre num"
  unfolding occurs_at_def using assms by blast

lemma match_first_km:
  assumes "occurs_at km_units s pre num"
    and "\<forall>pre' num'. occurs_at km_units s pre' num' \<longrightarrow> length pre \<le> length pre'"
  shows "match_first number_group km_rest s = Some num"
  using assms match_first_Some_I [of km_rest s pre num] good_head_km
  unfolding found_km by blast

lemma match_first_mi:
  assumes "occurs_at mi_units s pre num"
    and "\<forall>pre' num'. occurs_at mi_units s pre' num' \<longrightarrow> length pre \<le> length pre'"
  shows "match_first number_group mi_rest s = Some num"
  using assms match_first_Some_I [of mi_rest s pre num] good_head_mi
  unfolding found_mi by blast

lemma match_first_km_None:
  "match_first number_group km_rest s = None \<longleftrightarrow> (\<forall>pre num. \<not> occurs_at km_units s pre num)"
  unfolding match_first_None_iff found_km ..

lemma match_first_mi_None:
  "match_first number_group mi_rest s = None \<longleftrightarrow> (\<forall>pre num. \<not> occurs_at mi_units s pre num)"
  unfolding match_first_None_iff found_mi ..

subsection \<open>The distance in a prompt\<close>

lemma takeWhile_digits: "list_all isDigit ds \<Longrightarrow> takeWhile isDigit ds = ds"
  by (simp add: list_all_iff)

lemma dropWhile_digits: "list_all isDigit ds \<Longrightarrow> dropWhile isDigit ds = []"
  by (simp add: list_all_iff)

lemma takeWhile_digits_sep:
  "list_all isDigit ds \<Longrightarrow> \<not> isDigit c \<Longrightarrow> takeWhile isDigit (ds @ c # r) = ds"
  by (simp add: list_all_iff takeWhile_append2)

lemma dropWhile_digits_sep:
  "list_all isDigit ds \<Longrightarrow> \<not> isDigit c \<Longrightarrow> dropWhile isDigit (ds @ c # r) = c # r"
  by (simp add: list_all_iff dropWhile_append2)

lemma replace_first_digits:
  "list_all isDigit ds \<Longrightarrow> replace_first CHR '','' CHR ''.'' ds = ds"
  by (induction ds) (auto simp: isDigit_def)

lemma replace_first_digits_sep:
  "list_all isDigit ds \<Longrightarrow>
     replace_first CHR '','' CHR ''.'' (ds @ c # r) =
       ds @ (if c = CHR '','' then CHR ''.'' # r else c # replace_first CHR '','' CHR ''.'' r)"
  by (induction ds) (auto simp: isDigit_def)

lemma parseFloat_integer:
  assumes "list_all isDigit ip"
  shows "parseFloat (replace_first CHR '','' CHR ''.'' ip) = real (digits_value ip)"
  using assms
  by (simp add: replace_first_digits parseFloat_def takeWhile_digits dropWhile_digits Let_def
      digits_value_def)

lemma parseFloat_decimal:
  assumes "list_all isDigit ip" "list_all isDigit fp" "sep = CHR ''.'' \<or> sep = CHR '',''"
  shows "parseFloat (replace_first CHR '','' CHR ''.'' (ip @ sep # fp)) =
           real (digits_value ip) + real (digits_value fp) / 10 ^ length fp"
proof -
  have r: "replace_first CHR '','' CHR ''.'' (ip @ sep # fp) = ip @ CHR ''.'' # fp"
    using assms by (auto simp: replace_first_digits_sep replace_first_digits)
  have nd: "\<not> isDigit CHR ''.''" by (simp add: isDigit_def)
  show ?thesis
    unfolding r parseFloat_def
    using assms(1,2) nd
    by (simp add: takeWhile_digits_sep dropWhile_digits_sep takeWhile_digits Let_def)
qed

lemma number_parts_text: "number_parts num ip fp \<Longrightarrow> number_text num"
  unfolding number_parts_def number_text_def
  by (rule exI [of _ ip]) (auto split: if_splits)

lemma number_parts_value:
  assumes "number_parts num ip fp"
  shows "parseFloat (replace_first CHR '','' CHR ''.'' num) =
           real (digits_value ip) + real (digits_value fp) / 10 ^ length fp"
proof (cases "fp = []")
  case True
  with assms have "num = ip" "list_all isDigit ip" unfolding number_parts_def by auto
  then show ?thesis using True by (simp add: parseFloat_integer digits_value_def)
next
  case False
  with assms obtain sep where "num = ip @ sep # fp" "sep = CHR ''.'' \<or> sep = CHR '',''"
    "list_all isDigit ip" "list_all isDigit fp"
    unfolding number_parts_def by auto
  then show ?thesis using parseFloat_decimal by blast
qed

lemma distanceKm_parsePrompt: "distanceKm (parsePrompt prompt cm) = parse_distance (toLowerCase prompt)"
  by (simp add: parsePrompt_def Let_def)

lemma lower_quiero: "toLowerCase ''Quiero 7,5 Km y luego 10 km'' = ''quiero 7,5 km y luego 10 km''"
  by code_simp

lemma parts_7_5: "number_parts ''7,5'' ''7'' ''5''"
  by (simp add: number_parts_def isDigit_def)

lemma lower_3_10: "toLowerCase ''3 km 10 km'' = ''3 km 10 km''"
  by code_simp

lemma parts_10: "number_parts ''10'' ''10'' []"
  by (simp add: number_parts_def isDigit_def)

text \<open>
  C4, as the code satisfies it. When the lower-cased prompt contains a number followed
  by optional white space and \<open>km\<close>, \<open>k\<close> or \<open>kilometros\<close> (with or without the accent), and
  no such occurrence starts further to the left, the parsed distance is that number,
  a comma read as the decimal point.
\<close>

theorem km_distance_first:
  assumes "occurs_at km_units (toLowerCase prompt) pre num"
    and "\<forall>pre' num'. occurs_at km_units (toLowerCase prompt) pre' num' \<longrightarrow> length pre \<le> length pre'"
    and "number_parts num ip fp"
  shows "distanceKm (parsePrompt prompt cm) =
           Some (real (digits_value ip) + real (digits_value fp) / 10 ^ length fp)"
proof -
  have "match_first number_group km_rest (toLowerCase prompt) = Some num"
    using assms(1,2) by (rule match_first_km)
  then show ?thesis
    unfolding distanceKm_parsePrompt parse_distance_def
    by (simp add: number_parts_value [OF assms(3)])
qed

theorem km_distance_first_witness:
  "distanceKm (parsePrompt ''Quiero 7,5 Km y luego 10 km'' Run) = Some 7.5"
proof -
  let ?s = "''quiero 7,5 km y luego 10 km''"
  have o: "occurs_at km_units (toLowerCase ''Quiero 7,5 Km y luego 10 km'') ''quiero '' ''7,5''"
    unfolding lower_quiero
    by (rule occurs_atI [of _ _ _ "'' ''" "''km''" "'' y luego 10 km''"])
      (simp_all add: number_parts_text [OF parts_7_5] isSpace_def km_units_def)
  have "list_all (\<lambda>k. exec_at number_group km_rest (drop k ?s) = None) [0 ..< length ''quiero '']"
    by code_simp
  then have l: "\<forall>pre' num'. occurs_at km_units (toLowerCase ''Quiero 7,5 Km y luego 10 km'') pre' num'
      \<longrightarrow> length ''quiero '' \<le> length pre'"
    unfolding lower_quiero found_km [symmetric] by (rule leftmostI)
  have "digits_value ''7'' = 7" "digits_value ''5'' = 5" by code_simp+
  with km_distance_first [OF o l parts_7_5, of Run] show ?thesis by simp
qed

text \<open>
  With two distances in the prompt the second one is not read: \<open>3 km 10 km\<close> contains
  the number 10 followed by \<open>km\<close>, and the parsed distance is 3.
\<close>

theorem km_distance_counterexample:
  "occurs_at km_units (toLowerCase ''3 km 10 km'') ''3 km '' ''10'' \<and>
   number_parts ''10'' ''10'' [] \<and>
   real (digits_value ''10'') + real (digits_value []) / 10 ^ length ([]::string) = 10 \<and>
   distanceKm (parsePrompt ''3 km 10 km'' Run) = Some 3 \<and>
   distanceKm (parsePrompt ''3 km 10 km'' Run) \<noteq> Some 10"
proof -
  have "occurs_at km_units (toLowerCase ''3 km 10 km'') ''3 km '' ''10''"
    unfolding lower_3_10
    by (rule occurs_atI [of _ _ _ "'' ''" "''km''" "[]"])
      (simp_all add: number_parts_text [OF parts_10] isSpace_def km_units_def)
  moreover have "digits_value ''10'' = 10" "digits_value [] = 0" by code_simp+
  moreover have "distanceKm (parsePrompt ''3 km 10 km'' Run) = Some 3" by code_simp
  ultimately show ?thesis using parts_10 by simp
qed

lemma lower_millas: "toLowerCase ''3,5 Millas'' = ''3,5 millas''"
  by code_simp

lemma lower_8_5: "toLowerCase ''8 km o 5 mi'' = ''8 km o 5 mi''"
  by code_simp

lemma parts_3_5: "number_parts ''3,5'' ''3'' ''5''"
  by (simp add: number_parts_def isDigit_def)

lemma parts_5: "number_parts ''5'' ''5'' []"
  by (simp add: number_parts_def isDigit_def)

lemma parts_8: "number_parts ''8'' ''8'' []"
  by (simp add: number_parts_def isDigit_def)

lemma lower_3_10_mi: "toLowerCase ''3 mi 10 mi'' = ''3 mi 10 mi''"
  by code_simp

text \<open>
  C5, as the code satisfies it. When the lower-cased prompt contains a number followed
  by optional white space and \<open>mi\<close> or \<open>millas\<close>, and no such occurrence starts further
  to the left, then: if the prompt contains no number followed by a kilometre unit,
  the parsed distance is that number times 1.609; and if it does, the parsed distance
  is the first number followed by a kilometre unit, unconverted (the kilometre pattern
  goes first).
\<close>

theorem mi_distance_first:
  assumes "occurs_at mi_units (toLowerCase prompt) pre num"
    and "\<forall>pre' num'. occurs_at mi_units (toLowerCase prompt) pre' num' \<longrightarrow> length pre \<le> length pre'"
    and "number_parts num ip fp"
  shows "((\<forall>p n. \<not> occurs_at km_units (toLowerCase prompt) p n) \<longrightarrow>
            distanceKm (parsePrompt prompt cm) =
              Some ((real (digits_value ip) + real (digits_value fp) / 10 ^ length fp) * 1.609)) \<and>
         (\<forall>pk nk ik fk.
            occurs_at km_units (toLowerCase prompt) pk nk \<and>
            (\<forall>p n. occurs_at km_units (toLowerCase prompt) p n \<longrightarrow> length pk \<le> length p) \<and>
            number_parts nk ik fk \<longrightarrow>
            distanceKm (parsePrompt prompt cm) =
              Some (real (digits_value ik) + real (digits_value fk) / 10 ^ length fk))"
proof (intro conjI allI impI)
  assume "\<forall>p n. \<not> occurs_at km_units (toLowerCase prompt) p n"
  then have "match_first number_group km_rest (toLowerCase prompt) = None"
    unfolding match_first_km_None .
  moreover have "match_first number_group mi_rest (toLowerCase prompt) = Some num"
    using assms(1,2) by (rule match_first_mi)
  ultimately show "distanceKm (parsePrompt prompt cm) =
      Some ((real (digits_value ip) + real (digits_value fp) / 10 ^ length fp) * 1.609)"
    unfolding distanceKm_parsePrompt parse_distance_def
    by (simp add: number_parts_value [OF assms(3)])
next
  fix pk nk ik fk
  assume a: "occurs_at km_units (toLowerCase prompt) pk nk \<and>
            (\<forall>p n. occurs_at km_units (toLowerCase prompt) p n \<longrightarrow> length pk \<le> length p) \<and>
            number_parts nk ik fk"
  then have "match_first number_group km_rest (toLowerCase prompt) = Some nk"
    using match_first_km by blast
  then show "distanceKm (parsePrompt prompt cm) =
      Some (real (digits_value ik) + real (digits_value fk) / 10 ^ length fk)"
    unfolding distanceKm_parsePrompt parse_distance_def
    using a by (simp add: number_parts_value)
qed

theorem mi_distance_first_witness:
  "distanceKm (parsePrompt ''3,5 Millas'' Walk) = Some (3.5 * 1.609) \<and>
   distanceKm (parsePrompt ''8 km o 5 mi'' Walk) = Some 8"
proof
  have o: "occurs_at mi_units (toLowerCase ''3,5 Millas'') [] ''3,5''"
    unfolding lower_millas
    by (rule occurs_atI [of _ _ _ "'' ''" "''millas''" "[]"])
      (simp_all add: number_parts_text [OF parts_3_5] isSpace_def mi_units_def)
  have l: "\<forall>pre' num'. occurs_at mi_units (toLowerCase ''3,5 Millas'') pre' num'
      \<longrightarrow> length ([]::string) \<le> length pre'"
    by simp
  have "match_first number_group km_rest ''3,5 millas'' = None" by code_simp
  then have n: "\<forall>p n. \<not> occurs_at km_units (toLowerCase ''3,5 Millas'') p n"
    unfolding lower_millas match_first_km_None .
  have "digits_value ''3'' = 3" "digits_value ''5'' = 5" by code_simp+
  with mi_distance_first [OF o l parts_3_5, of Walk] n
  show "distanceKm (parsePrompt ''3,5 Millas'' Walk) = Some (3.5 * 1.609)" by simp
next
  let ?s = "''8 km o 5 mi''"
  have o: "occurs_at mi_units (toLowerCase ''8 km o 5 mi'') ''8 km o '' ''5''"
    unfolding lower_8_5
    by (rule occurs_atI [of _ _ _ "'' ''" "''mi''" "[]"])
      (simp_all add: number_parts_text [OF parts_5] isSpace_def mi_units_def)
  have "list_all (\<lambda>k. exec_at number_group mi_rest (drop k ?s) = None) [0 ..< length ''8 km o '']"
    by code_simp
  then have l: "\<forall>pre' num'. occurs_at mi_units (toLowerCase ''8 km o 5 mi'') pre' num'
      \<longrightarrow> length ''8 km o '' \<le> length pre'"
    unfolding lower_8_5 found_mi [symmetric] by (rule leftmostI)
  have ok: "occurs_at km_units (toLowerCase ''8 km o 5 mi'') [] ''8''"
    unfolding lower_8_5
    by (rule occurs_atI [of _ _ _ "'' ''" "''km''" "'' o 5 mi''"])
      (simp_all add: number_parts_text [OF parts_8] isSpace_def km_units_def)
  have lk: "\<forall>p n. occurs_at km_units (toLowerCase ''8 km o 5 mi'') p n \<longrightarrow> length ([]::string) \<le> length p"
    by simp
  have "digits_value ''8'' = 8" by code_simp
  moreover from mi_distance_first [OF o l parts_5, of Walk] ok lk parts_8
  have "distanceKm (parsePrompt ''8 km o 5 mi'' Walk) =
      Some (real (digits_value ''8'') + real (digits_value []) / 10 ^ length ([]::string))"
    by blast
  ultimately show "distanceKm (parsePrompt ''8 km o 5 mi'' Walk) = Some 8"
    by (simp add: digits_value_def)
qed

text \<open>
  With two distances in miles in the prompt the second one is not read:
  \<open>3 mi 10 mi\<close> contains the number 10 followed by \<open>mi\<close> and no kilometre unit, and
  the parsed distance is 3 times 1.609.
\<close>

theorem mi_distance_counterexample:
  "occurs_at mi_units (toLowerCase ''3 mi 10 mi'') ''3 mi '' ''10'' \<and>
   number_parts ''10'' ''10'' [] \<and>
   real (digits_value ''10'') + real (digits_value []) / 10 ^ length ([]::string) = 10 \<and>
   match_first number_group km_rest (toLowerCase ''3 mi 10 mi'') = None \<and>
   distanceKm (parsePrompt ''3 mi 10 mi'' Run) = Some (3 * 1.609) \<and>
   distanceKm (parsePrompt ''3 mi 10 mi'' Run) \<noteq> Some (10 * 1.609)"
proof -
  have "occurs_at mi_units (toLowerCase ''3 mi 10 mi'') ''3 mi '' ''10''"
    unfolding lower_3_10_mi
    by (rule occurs_atI [of _ _ _ "'' ''" "''mi''" "[]"])
      (simp_all add: number_parts_text [OF parts_10] isSpace_def mi_units_def)
  moreover have "digits_value ''10'' = 10" "digits_value [] = 0" by code_simp+
  moreover have "match_first number_group km_rest (toLowerCase ''3 mi 10 mi'') = None" by code_simp
  moreover have "distanceKm (parsePrompt ''3 mi 10 mi'' Run) = Some (3 * 1.609)" by code_simp
  ultimately show ?thesis using parts_10 by simp
qed

subsection \<open>Examples and defaults of parsePrompt\<close>

text \<open>
  C6, as the code satisfies it. \<open>parsePrompt("Quiero 7 km suaves en parque", "run")\<close>
  returns the mode run, the distance 7, the focus label \<open>Parques\<close> and the intent easy.
\<close>

theorem parsePrompt_parque:
  "parsePrompt ''Quiero 7 km suaves en parque'' Run =
     \<lparr>mode = Run, distanceKm = Some 7, focus = ''Parques'', intent = Easy\<rparr>"
  by code_simp

text \<open>The focus label of the code is \<open>Parques\<close>, not \<open>Parks\<close>.\<close>

theorem parsePrompt_parque_counterexample:
  "\<not> (mode (parsePrompt ''Quiero 7 km suaves en parque'' Run) = Run \<and>
      distanceKm (parsePrompt ''Quiero 7 km suaves en parque'' Run) = Some 7 \<and>
      focus (parsePrompt ''Quiero 7 km suaves en parque'' Run) = ''Parks'' \<and>
      intent (parsePrompt ''Quiero 7 km suaves en parque'' Run) = Easy)"
proof -
  have "focus (parsePrompt ''Quiero 7 km suaves en parque'' Run) = ''Parques''" by code_simp
  then show ?thesis by simp
qed

lemma lower_trail: "toLowerCase ''Un trail con desnivel'' = ''un trail con desnivel''"
  by code_simp

text \<open>
  C7, as the code satisfies it. For every current mode,
  \<open>parsePrompt("Un trail con desnivel", currentMode)\<close> returns the mode hike, the intent
  trail and the focus label \<open>Terreno mixto\<close>.
\<close>

theorem parsePrompt_trail:
  "mode (parsePrompt ''Un trail con desnivel'' currentMode) = Hike \<and>
   intent (parsePrompt ''Un trail con desnivel'' currentMode) = Trail \<and>
   focus (parsePrompt ''Un trail con desnivel'' currentMode) = ''Terreno mixto''"
proof -
  let ?l = "''un trail con desnivel''"
  have "parse_mode ?l currentMode = Hike"
    by (cases currentMode) code_simp+
  moreover have "parse_intent ?l = Trail" by code_simp
  moreover have "parse_focus ?l Trail = ''Terreno mixto''" by code_simp
  ultimately show ?thesis
    by (simp add: parsePrompt_def lower_trail Let_def)
qed

text \<open>The focus label of the code is \<open>Terreno mixto\<close>, not \<open>Mixed terrain\<close>.\<close>

theorem parsePrompt_trail_counterexample:
  "\<not> (mode (parsePrompt ''Un trail con desnivel'' Walk) = Hike \<and>
      intent (parsePrompt ''Un trail con desnivel'' Walk) = Trail \<and>
      focus (parsePrompt ''Un trail con desnivel'' Walk) = ''Mixed terrain'')"
proof -
  have "focus (parsePrompt ''Un trail con desnivel'' Walk) = ''Terreno mixto''" by code_simp
  then show ?thesis by simp
qed

lemma includes_sublist: "includes' s k \<longleftrightarrow> sublist k s"
  by (induction s) (simp_all add: sublist_Cons_right)

lemma parseFloat_nonneg: "0 \<le> parseFloat s"
  by (simp add: parseFloat_def Let_def)

lemma parse_distance_nonneg:
  assumes "parse_distance l = Some d"
  shows "0 \<le> d"
proof (cases "match_first number_group km_rest l")
  case (Some g)
  with assms have "d = parseFloat (replace_first CHR '','' CHR ''.'' g)"
    by (simp add: parse_distance_def)
  then show ?thesis by (simp add: parseFloat_nonneg)
next
  case None
  with assms obtain g where "match_first number_group mi_rest l = Some g"
    by (cases "match_first number_group mi_rest l") (simp_all add: parse_distance_def)
  with None assms have "parseFloat (replace_first CHR '','' CHR ''.'' g) * 1.609 = d"
    by (simp add: parse_distance_def)
  moreover have "0 \<le> parseFloat (replace_first CHR '','' CHR ''.'' g) * 1.609"
    by (simp add: parseFloat_nonneg)
  ultimately show ?thesis by simp
qed

lemma parse_focus_labels:
  "parse_focus l i \<in>
     {''Parques'', ''Iluminaci'' @ [CHR 0xF3] @ ''n alta'', ''Tr'' @ [CHR 0xE1] @ ''fico bajo'',
      ''Terreno mixto'', ''Ruta equilibrada''}"
  unfolding parse_focus_def by (simp del: insert_iff add: insertI1 insertI2)

lemma no_keywords:
  assumes "\<forall>k \<in> set prompt_keywords. \<not> sublist k l"
  shows "parse_mode l cm = cm" "parse_intent l = Easy" "parse_focus l Easy = ''Ruta equilibrada''"
  using assms
  by (simp_all add: prompt_keywords_def parse_mode_def parse_intent_def parse_focus_def
      includes_sublist Let_def)

text \<open>
  C8, as the code satisfies it. \<open>parsePrompt\<close> has a result for every prompt and every
  current mode: the matcher terminates, the text handed to \<open>parseFloat\<close> is always a
  number, the distance (if any) is not negative and the focus is one of the five
  labels. When the lower-cased prompt contains none of the keywords and no number
  followed by a unit, the result is the current mode, no distance, the label
  \<open>Ruta equilibrada\<close> and the intent easy.
\<close>

theorem parsePrompt_defaults:
  "focus (parsePrompt prompt cm) \<in>
     {''Parques'', ''Iluminaci'' @ [CHR 0xF3] @ ''n alta'', ''Tr'' @ [CHR 0xE1] @ ''fico bajo'',
      ''Terreno mixto'', ''Ruta equilibrada''} \<and>
   (\<forall>d. distanceKm (parsePrompt prompt cm) = Some d \<longrightarrow> 0 \<le> d) \<and>
   (\<forall>g. match_first number_group km_rest (toLowerCase prompt) = Some g \<or>
        match_first number_group mi_rest (toLowerCase prompt) = Some g \<longrightarrow> number_text g) \<and>
   ((\<forall>k \<in> set prompt_keywords. \<not> sublist k (toLowerCase prompt)) \<and>
    (\<forall>pre num. \<not> occurs_at km_units (toLowerCase prompt) pre num) \<and>
    (\<forall>pre num. \<not> occurs_at mi_units (toLowerCase prompt) pre num) \<longrightarrow>
    parsePrompt prompt cm =
      \<lparr>mode = cm, distanceKm = None, focus = ''Ruta equilibrada'', intent = Easy\<rparr>)"
proof (intro conjI allI impI)
  show "focus (parsePrompt prompt cm) \<in>
     {''Parques'', ''Iluminaci'' @ [CHR 0xF3] @ ''n alta'', ''Tr'' @ [CHR 0xE1] @ ''fico bajo'',
      ''Terreno mixto'', ''Ruta equilibrada''}"
    using parse_focus_labels by (simp add: parsePrompt_def Let_def)
next
  fix d assume "distanceKm (parsePrompt prompt cm) = Some d"
  then show "0 \<le> d" unfolding distanceKm_parsePrompt by (rule parse_distance_nonneg)
next
  fix g
  assume "match_first number_group km_rest (toLowerCase prompt) = Some g \<or>
        match_first number_group mi_rest (toLowerCase prompt) = Some g"
  then show "number_text g"
    using match_first_number_text by blast
next
  assume a: "(\<forall>k \<in> set prompt_keywords. \<not> sublist k (toLowerCase prompt)) \<and>
    (\<forall>pre num. \<not> occurs_at km_units (toLowerCase prompt) pre num) \<and>
    (\<forall>pre num. \<not> occurs_at mi_units (toLowerCase prompt) pre num)"
  then have "match_first number_group km_rest (toLowerCase prompt) = None"
    "match_first number_group mi_rest (toLowerCase prompt) = None"
    unfolding match_first_km_None match_first_mi_None by blast+
  then have "parse_distance (toLowerCase prompt) = None"
    by (simp add: parse_distance_def)
  moreover from a have "\<forall>k \<in> set prompt_keywords. \<not> sublist k (toLowerCase prompt)" by blast
  note no_keywords [OF this]
  ultimately show "parsePrompt prompt cm =
      \<lparr>mode = cm, distanceKm = None, focus = ''Ruta equilibrada'', intent = Easy\<rparr>"
    by (simp add: parsePrompt_def Let_def)
qed

theorem parsePrompt_defaults_witness:
  "parsePrompt ''Hola, una ruta bonita'' Jog = \<lparr>mode = Jog, distanceKm = None, focus = ''Ruta equilibrada'', intent = Easy\<rparr>"
proof -
  have l: "toLowerCase ''Hola, una ruta bonita'' = ''hola, una ruta bonita''" by code_simp
  have "list_all (\<lambda>k. \<not> includes' ''hola, una ruta bonita'' k) prompt_keywords" by code_simp
  then have k: "\<forall>k \<in> set prompt_keywords. \<not> sublist k (toLowerCase ''Hola, una ruta bonita'')"
    unfolding l includes_sublist list_all_iff .
  have "match_first number_group km_rest ''hola, una ruta bonita'' = None" by code_simp
  then have n1: "\<forall>pre num. \<not> occurs_at km_units (toLowerCase ''Hola, una ruta bonita'') pre num"
    unfolding l match_first_km_None .
  have "match_first number_group mi_rest ''hola, una ruta bonita'' = None" by code_simp
  then have n2: "\<forall>pre num. \<not> occurs_at mi_units (toLowerCase ''Hola, una ruta bonita'') pre num"
    unfolding l match_first_mi_None .
  from parsePrompt_defaults [of "''Hola, una ruta bonita''" Jog] k n1 n2 show ?thesis by blast
qed

text \<open>The default focus label of the code is \<open>Ruta equilibrada\<close>, not \<open>balanced route\<close>.\<close>

theorem parsePrompt_defaults_counterexample:
  "filter (includes' (toLowerCase ''Hola, una ruta bonita'')) prompt_keywords = [] \<and>
   match_first number_group km_rest (toLowerCase ''Hola, una ruta bonita'') = None \<and>
   match_first number_group mi_rest (toLowerCase ''Hola, una ruta bonita'') = None \<and>
   focus (parsePrompt ''Hola, una ruta bonita'' Jog) = ''Ruta equilibrada'' \<and>
   focus (parsePrompt ''Hola, una ruta bonita'' Jog) \<noteq> ''balanced route'' \<and>
   focus (parsePrompt ''Hola, una ruta bonita'' Jog) \<noteq> ''Balanced route''"
proof -
  have "filter (includes' (toLowerCase ''Hola, una ruta bonita'')) prompt_keywords = []"
    by code_simp
  moreover have "match_first number_group km_rest (toLowerCase ''Hola, una ruta bonita'') = None"
    by code_simp
  moreover have "match_first number_group mi_rest (toLowerCase ''Hola, una ruta bonita'') = None"
    by code_simp
  moreover have "focus (parsePrompt ''Hola, una ruta bonita'' Jog) = ''Ruta equilibrada''"
    by code_simp
  ultimately show ?thesis by simp
qed

subsection \<open>Map coordinates\<close>

lemma to_coord_formula:
  "to_coord p = (fst MAP_CENTER + (pt_x p - 50) * 0.00075, snd MAP_CENTER + (50 - pt_y p) * 0.00075)"
  by (simp add: to_coord_def Let_def)

lemma buildRouteGeo_Inr:
  assumes "points route \<noteq> []"
  shows "\<exists>b. buildRouteGeo route =
           Inr \<lparr>line_coordinates = map to_coord (points route),
                line_title = title route,
                point_features = map (point_feature (points route) (map to_coord (points route)))
                                   [0 ..< length (points route)],
                bounds_sw = fst b, bounds_ne = snd b\<rparr>"
  using assms by (cases "points route") (simp_all add: buildRouteGeo_def Let_def)

lemma kind_point_feature:
  "kind (point_feature pts coords idx) =
     (if idx = 0 then ''start'' else if idx = length coords - 1 then ''end'' else ''mid'')"
  by (simp add: point_feature_def)

lemma coordinates_point_feature: "coordinates (point_feature pts coords idx) = coords ! idx"
  by (simp add: point_feature_def)

lemma last_map_upt: "0 < n \<Longrightarrow> last (map f [0 ..< n]) = f (n - 1)"
  by (simp add: last_map)

lemma buildRouteGeo_route:
  assumes "points route \<noteq> []"
  shows "\<exists>g. buildRouteGeo route = Inr g \<and>
           MAP_CENTER = (-74.042, 4.6946) \<and>
           line_coordinates g =
             map (\<lambda>p. (fst MAP_CENTER + (pt_x p - 50) * 0.00075,
                        snd MAP_CENTER + (50 - pt_y p) * 0.00075)) (points route) \<and>
           length (point_features g) = length (points route) \<and>
           (\<forall>i < length (points route).
              coordinates (point_features g ! i) =
                (fst MAP_CENTER + (pt_x (points route ! i) - 50) * 0.00075,
                 snd MAP_CENTER + (50 - pt_y (points route ! i)) * 0.00075) \<and>
              kind (point_features g ! i) =
                (if i = 0 then ''start''
                 else if i = length (points route) - 1 then ''end'' else ''mid'')) \<and>
           kind (hd (point_features g)) = ''start'' \<and>
           (2 \<le> length (points route) \<longrightarrow> kind (last (point_features g)) = ''end'')"
proof -
  let ?n = "length (points route)"
  let ?fs = "map (point_feature (points route) (map to_coord (points route))) [0 ..< ?n]"
  from buildRouteGeo_Inr [OF assms] obtain b where
    g: "buildRouteGeo route =
           Inr \<lparr>line_coordinates = map to_coord (points route),
                line_title = title route,
                point_features = ?fs,
                bounds_sw = fst b, bounds_ne = snd b\<rparr>" by blast
  have n: "0 < ?n" using assms by simp
  have c: "map to_coord (points route) =
      map (\<lambda>p. (fst MAP_CENTER + (pt_x p - 50) * 0.00075,
                 snd MAP_CENTER + (50 - pt_y p) * 0.00075)) (points route)"
    by (simp add: to_coord_formula)
  have l: "length ?fs = ?n" by simp
  have i: "\<forall>i < ?n.
      coordinates (?fs ! i) =
        (fst MAP_CENTER + (pt_x (points route ! i) - 50) * 0.00075,
         snd MAP_CENTER + (50 - pt_y (points route ! i)) * 0.00075) \<and>
      kind (?fs ! i) = (if i = 0 then ''start'' else if i = ?n - 1 then ''end'' else ''mid'')"
    by (simp add: kind_point_feature coordinates_point_feature to_coord_formula)
  have h: "kind (hd ?fs) = ''start''"
    using n by (simp add: hd_map upt_conv_Cons kind_point_feature)
  have e: "2 \<le> ?n \<longrightarrow> kind (last ?fs) = ''end''"
  proof
    assume "2 \<le> ?n"
    then have "?n - 1 \<noteq> 0" by simp
    moreover have "last ?fs = point_feature (points route) (map to_coord (points route)) (?n - 1)"
      using n by (rule last_map_upt)
    ultimately show "kind (last ?fs) = ''end''"
      by (simp add: kind_point_feature)
  qed
  have m: "MAP_CENTER = (-74.042, 4.6946)" by (simp add: MAP_CENTER_def)
  show ?thesis
    unfolding g using m c l i h e by (intro exI conjI) (rule refl, simp_all)
qed


lemma baseRoutes_points: "r \<in> set (baseRoutes m) \<Longrightarrow> 4 \<le> length (points r)"
  by (cases m) auto

lemma baseRoutes_nonempty: "baseRoutes m \<noteq> []"
  by (cases m) simp_all

lemma generateShape_length_ge: "4 \<le> length (generateShape d)"
  by (simp add: generateShape_def shape_base_def splice_insert_def Let_def)

lemma step_points:
  assumes "\<And>m r. r \<in> set (customRoutes s m) \<Longrightarrow> 4 \<le> length (points r)"
    and "r \<in> set (customRoutes (step s e) m)"
  shows "4 \<le> length (points r)"
proof (cases e)
  case CoachPlan
  show ?thesis
  proof (cases "trim (coachPrompt s) = []")
    case True
    with CoachPlan assms show ?thesis by (simp add: handleCoachPlan_def Let_def)
  next
    case False
    let ?p = "parsePrompt (trim (coachPrompt s)) (cur_mode s)"
    from False CoachPlan assms(2)
    have "r \<in> set (insert_route (mode ?p) (coach_route ?p) (customRoutes s) m)"
      by (simp add: handleCoachPlan_def Let_def)
    then have "r \<in> set (customRoutes s m) \<or> r = coach_route ?p"
      by (auto simp: insert_route_def Let_def split: if_splits)
    then show ?thesis
      using assms(1) generateShape_length_ge
      by (auto simp: coach_route_def buildRouteFromPrompt_def Let_def)
  qed
next
  case (SelectMode m')
  with assms show ?thesis by (simp add: selectMode_def Let_def split: list.splits if_splits)
qed (use assms in simp_all)

lemma run_events_points:
  "r \<in> set (customRoutes (run_events es) m) \<Longrightarrow> 4 \<le> length (points r)"
proof (induction es arbitrary: r m rule: rev_induct)
  case Nil
  then show ?case by (simp add: run_events_def initial_state_def)
next
  case (snoc e es)
  from snoc.prems have "r \<in> set (customRoutes (step (run_events es) e) m)"
    by (simp add: run_events_def)
  with snoc.IH show ?case by (rule step_points)
qed

text \<open>
  In every state the page can reach there is an active route, it has at least four
  points, and \<open>syncRouteLayers\<close> gets its GeoJSON data without an error.
\<close>

lemma activeRoute_geo:
  "\<exists>r g. activeRoute (run_events es) = Some r \<and> 4 \<le> length (points r) \<and>
         syncRouteLayers_geo r = Some (Inr g)"
proof -
  let ?s = "run_events es"
  have ne: "routes ?s \<noteq> []" by (simp add: routes_def baseRoutes_nonempty)
  have all: "\<And>r. r \<in> set (routes ?s) \<Longrightarrow> 4 \<le> length (points r)"
    using baseRoutes_points run_events_points by (auto simp: routes_def)
  obtain r where r: "activeRoute ?s = Some r" "r \<in> set (routes ?s)"
  proof (cases "find (\<lambda>r. id' r = activeRouteId ?s) (routes ?s)")
    case None
    with ne obtain r0 rs where "routes ?s = r0 # rs" by (cases "routes ?s") auto
    with None have "activeRoute ?s = Some r0" "r0 \<in> set (routes ?s)"
      by (simp_all add: activeRoute_def)
    then show ?thesis by (rule that)
  next
    case (Some r)
    then have "activeRoute ?s = Some r" by (simp add: activeRoute_def)
    moreover from Some have "r \<in> set (routes ?s)"
      by (auto simp: find_Some_iff)
    ultimately show ?thesis by (rule that)
  qed
  from all [OF r(2)] have n: "4 \<le> length (points r)" .
  then have "points r \<noteq> []" by auto
  then obtain g where "buildRouteGeo r = Inr g"
    by (cases "points r") (auto simp: buildRouteGeo_def Let_def)
  with n r(1) show ?thesis by (auto simp: syncRouteLayers_geo_def)
qed

text \<open>
  C9. For a route with at least one point, \<open>buildRouteGeo\<close> maps each waypoint \<open>(x, y)\<close>
  to \<open>(center.lng + (x - 50) * 0.00075, center.lat + (50 - y) * 0.00075)\<close> around the
  constant centre, and gives one point feature per waypoint, in order, with these
  coordinates: the first is of kind \<open>start\<close>, the last (of two or more) of kind \<open>end\<close>,
  every other one of kind \<open>mid\<close>. In every state the page can reach, the active route
  has at least four points and \<open>syncRouteLayers\<close> passes it to \<open>buildRouteGeo\<close>.
\<close>

theorem buildRouteGeo_points:
  "(points route \<noteq> [] \<longrightarrow>
     (\<exists>g. buildRouteGeo route = Inr g \<and>
           MAP_CENTER = (-74.042, 4.6946) \<and>
           line_coordinates g =
             map (\<lambda>p. (fst MAP_CENTER + (pt_x p - 50) * 0.00075,
                        snd MAP_CENTER + (50 - pt_y p) * 0.00075)) (points route) \<and>
           length (point_features g) = length (points route) \<and>
           (\<forall>i < length (points route).
              coordinates (point_features g ! i) =
                (fst MAP_CENTER + (pt_x (points route ! i) - 50) * 0.00075,
                 snd MAP_CENTER + (50 - pt_y (points route ! i)) * 0.00075) \<and>
              kind (point_features g ! i) =
                (if i = 0 then ''start''
                 else if i = length (points route) - 1 then ''end'' else ''mid'')) \<and>
           kind (hd (point_features g)) = ''start'' \<and>
           (2 \<le> length (points route) \<longrightarrow> kind (last (point_features g)) = ''end''))) \<and>
   (\<exists>r. activeRoute (run_events es) = Some r \<and> 4 \<le> length (points r) \<and>
        syncRouteLayers_geo r = Some (buildRouteGeo r))"
proof (intro conjI impI)
  assume "points route \<noteq> []"
  then show "\<exists>g. buildRouteGeo route = Inr g \<and>
           MAP_CENTER = (-74.042, 4.6946) \<and>
           line_coordinates g =
             map (\<lambda>p. (fst MAP_CENTER + (pt_x p - 50) * 0.00075,
                        snd MAP_CENTER + (50 - pt_y p) * 0.00075)) (points route) \<and>
           length (point_features g) = length (points route) \<and>
           (\<forall>i < length (points route).
              coordinates (point_features g ! i) =
                (fst MAP_CENTER + (pt_x (points route ! i) - 50) * 0.00075,
                 snd MAP_CENTER + (50 - pt_y (points route ! i)) * 0.00075) \<and>
              kind (point_features g ! i) =
                (if i = 0 then ''start''
                 else if i = length (points route) - 1 then ''end'' else ''mid'')) \<and>
           kind (hd (point_features g)) = ''start'' \<and>
           (2 \<le> length (points route) \<longrightarrow> kind (last (point_features g)) = ''end'')"
    by (rule buildRouteGeo_route)
next
  from activeRoute_geo [of es] obtain r g where
    "activeRoute (run_events es) = Some r" "4 \<le> length (points r)"
    "syncRouteLayers_geo r = Some (Inr g)" by blast
  then have "activeRoute (run_events es) = Some r \<and> 4 \<le> length (points r) \<and>
        syncRouteLayers_geo r = Some (buildRouteGeo r)"
    by (auto simp: syncRouteLayers_geo_def split: if_splits)
  then show "\<exists>r. activeRoute (run_events es) = Some r \<and> 4 \<le> length (points r) \<and>
        syncRouteLayers_geo r = Some (buildRouteGeo r)" by blast
qed

theorem buildRouteGeo_points_witness:
  "\<exists>g. buildRouteGeo (baseRoutes Run ! 0) = Inr g \<and>
       hd (line_coordinates g) = (-74.0705, 4.6691) \<and>
       kind (hd (point_features g)) = ''start'' \<and>
       kind (point_features g ! 1) = ''mid'' \<and>
       kind (last (point_features g)) = ''end'' \<and>
       (\<exists>r. activeRoute (run_events []) = Some r \<and> 4 \<le> length (points r) \<and>
          syncRouteLayers_geo r = Some (buildRouteGeo r))"
proof -
  let ?r = "baseRoutes Run ! 0"
  have p: "points ?r \<noteq> []" by simp
  have n: "length (points ?r) = 4" by simp
  from buildRouteGeo_points [of ?r "[]"] p obtain g where g: "buildRouteGeo ?r = Inr g"
    and c: "line_coordinates g =
             map (\<lambda>p. (fst MAP_CENTER + (pt_x p - 50) * 0.00075,
                        snd MAP_CENTER + (50 - pt_y p) * 0.00075)) (points ?r)"
    and m: "MAP_CENTER = (-74.042, 4.6946)"
    and i: "\<forall>i < length (points ?r).
              coordinates (point_features g ! i) =
                (fst MAP_CENTER + (pt_x (points ?r ! i) - 50) * 0.00075,
                 snd MAP_CENTER + (50 - pt_y (points ?r ! i)) * 0.00075) \<and>
              kind (point_features g ! i) =
                (if i = 0 then ''start''
                 else if i = length (points ?r) - 1 then ''end'' else ''mid'')"
    and h: "kind (hd (point_features g)) = ''start''"
    and e: "2 \<le> length (points ?r) \<longrightarrow> kind (last (point_features g)) = ''end''"
    by blast
  from c have "hd (line_coordinates g) = (-74.0705, 4.6691)" by (simp add: MAP_CENTER_def)
  moreover from i n have "kind (point_features g ! 1) = ''mid''" by simp
  moreover from e n have "kind (last (point_features g)) = ''end''" by simp
  moreover from buildRouteGeo_points [of ?r "[]"]
  have "\<exists>r. activeRoute (run_events []) = Some r \<and> 4 \<le> length (points r) \<and>
      syncRouteLayers_geo r = Some (buildRouteGeo r)" by blast
  ultimately show ?thesis using g h by blast
qed

end
